theory Spec2Isabelle
  imports Main "HOL-Library.Word"
begin

unbundle bit_operations_syntax

section \<open>Machine types and constants (config.h)\<close>

text \<open>
  \<open>uint8_t\<close>, \<open>uint16_t\<close> and \<open>uint32_t\<close> are words of that width. The signed
  \<open>int8_t\<close> and \<open>int16_t\<close> are words of the same width read through \<open>sint\<close>.
\<close>

type_synonym u8 = "8 word"
type_synonym u16 = "16 word"
type_synonym u32 = "32 word"
type_synonym i8 = "8 word"
type_synonym i16 = "16 word"

definition ADB_ATTN_MIN_US :: u32 where "ADB_ATTN_MIN_US = 560"
definition ADB_ATTN_MAX_US :: u32 where "ADB_ATTN_MAX_US = 1040"
definition ADB_BIT_CELL_US :: u32 where "ADB_BIT_CELL_US = 100"
definition ADB_BIT_THRESHOLD_US :: u32 where "ADB_BIT_THRESHOLD_US = 50"
definition ADB_TIMING_TOLERANCE_US :: u32 where "ADB_TIMING_TOLERANCE_US = 15"
definition ADB_TLT_MAX_US :: u32 where "ADB_TLT_MAX_US = 260"
definition ADB_RESET_MIN_US :: u32 where "ADB_RESET_MIN_US = 2800"

definition ADB_ADDR_KEYBOARD :: u8 where "ADB_ADDR_KEYBOARD = 2"
definition ADB_ADDR_MOUSE :: u8 where "ADB_ADDR_MOUSE = 3"

definition ADB_CMD_RESET :: u8 where "ADB_CMD_RESET = 0"
definition ADB_CMD_FLUSH :: u8 where "ADB_CMD_FLUSH = 1"
definition ADB_CMD_LISTEN :: u8 where "ADB_CMD_LISTEN = 2"
definition ADB_CMD_TALK :: u8 where "ADB_CMD_TALK = 3"

definition ADB_HANDLER_KEYBOARD :: u8 where "ADB_HANDLER_KEYBOARD = 2"
definition ADB_HANDLER_MOUSE :: u8 where "ADB_HANDLER_MOUSE = 2"

section \<open>Event types (event_queue.h)\<close>

record KbdEvent =
  adb_keycode :: u8
  released :: bool

record MouseEvent =
  dx :: i16
  dy :: i16
  button :: bool

text \<open>
  The two FreeRTOS queues are lists, oldest event first. \<open>receive_kbd\<close> and
  \<open>receive_mouse\<close> take the head of the list, \<open>kbd_pending\<close> and \<open>mouse_pending\<close>
  ask whether the list is non-empty.
\<close>

definition kbd_pending :: "KbdEvent list \<Rightarrow> bool" where
  "kbd_pending q = (q \<noteq> [])"

definition mouse_pending :: "MouseEvent list \<Rightarrow> bool" where
  "mouse_pending q = (q \<noteq> [])"

section \<open>Keyboard emulator (adb_keyboard.cpp)\<close>

text \<open>
  The static variables of the namespace are the fields of one record. The ring indices
  are C \<open>int\<close>s that every operation reduces modulo 32, so they are naturals here.
\<close>

record kbd_state =
  kbd_address :: u8
  kbd_handler :: u8
  key_buf :: "u8 list"
  key_head :: nat
  key_tail :: nat
  register2 :: u16

definition KEY_BUF_SIZE :: nat where "KEY_BUF_SIZE = 32"

text \<open>The values of the static initialisers: the state at power-on.\<close>

definition kbd_boot :: kbd_state where
  "kbd_boot = \<lparr>kbd_address = ADB_ADDR_KEYBOARD, kbd_handler = ADB_HANDLER_KEYBOARD,
     key_buf = replicate 32 0, key_head = 0, key_tail = 0, register2 = 0xFFFF\<rparr>"

definition buf_empty :: "kbd_state \<Rightarrow> bool" where
  "buf_empty s = (key_head s = key_tail s)"

definition buf_full :: "kbd_state \<Rightarrow> bool" where
  "buf_full s = ((key_head s + 1) mod KEY_BUF_SIZE = key_tail s)"

definition buf_push :: "u8 \<Rightarrow> kbd_state \<Rightarrow> kbd_state" where
  "buf_push key_event s =
     (if \<not> buf_full s
      then s\<lparr>key_buf := (key_buf s)[key_head s := key_event],
             key_head := (key_head s + 1) mod KEY_BUF_SIZE\<rparr>
      else s)"

definition buf_pop :: "kbd_state \<Rightarrow> u8 \<times> kbd_state" where
  "buf_pop s = (key_buf s ! key_tail s, s\<lparr>key_tail := (key_tail s + 1) mod KEY_BUF_SIZE\<rparr>)"

text \<open>\<open>init\<close> assigns every static variable except the buffer array.\<close>

definition kbd_init :: "kbd_state \<Rightarrow> kbd_state" where
  "kbd_init s = s\<lparr>kbd_address := ADB_ADDR_KEYBOARD, kbd_handler := ADB_HANDLER_KEYBOARD,
     key_head := 0, key_tail := 0, register2 := 0xFFFF\<rparr>"

text \<open>The byte \<open>process_queue\<close> stores for one event: bit 7 is the release flag.\<close>

definition adb_event :: "KbdEvent \<Rightarrow> u8" where
  "adb_event evt = (if released evt then 0x80 else 0x00) OR (adb_keycode evt AND 0x7F)"

text \<open>
  \<open>process_queue\<close>: the loop receives until the queue is empty, so it is a recursion
  over the queued events; the queue is empty afterwards.
\<close>

fun kbd_process_queue :: "kbd_state \<Rightarrow> KbdEvent list \<Rightarrow> kbd_state" where
  "kbd_process_queue s [] = s"
| "kbd_process_queue s (evt # q) = kbd_process_queue (buf_push (adb_event evt) s) q"

text \<open>
  \<open>handle_talk\<close> returns the data word (\<open>None\<close> for \<open>false\<close>, no response), the new
  state and the queue it leaves.
\<close>

definition kbd_handle_talk ::
  "u8 \<Rightarrow> kbd_state \<Rightarrow> KbdEvent list \<Rightarrow> u16 option \<times> kbd_state \<times> KbdEvent list" where
  "kbd_handle_talk reg s q =
     (if reg = 0 then
        (let s1 = kbd_process_queue s q in
         if buf_empty s1 then (None, s1, [])
         else
           (let (key1, s2) = buf_pop s1;
                (key2, s3) = (if buf_empty s2 then (0xFF, s2) else buf_pop s2)
            in (Some (push_bit 8 (ucast key1) OR ucast key2), s3, [])))
      else if reg = 2 then (Some (register2 s), s, q)
      else if reg = 3 then
        (let byte0 = 0x60 OR (kbd_address s AND 0x0F)
         in (Some (push_bit 8 (ucast byte0) OR ucast (kbd_handler s)), s, q))
      else (None, s, q))"

definition kbd_handle_listen :: "u8 \<Rightarrow> u16 \<Rightarrow> kbd_state \<Rightarrow> kbd_state" where
  "kbd_handle_listen reg data s =
     (if reg = 2 then s\<lparr>register2 := data\<rparr>
      else if reg = 3 then
        (let new_addr = (ucast (drop_bit 8 data) :: u8);
             new_handler = (ucast (data AND 0xFF) :: u8);
             s1 = (if new_addr \<noteq> 0 \<and> new_addr \<noteq> 0xFE
                   then s\<lparr>kbd_address := new_addr AND 0x0F\<rparr> else s)
         in if new_handler \<noteq> 0 \<and> new_handler \<noteq> 0xFE
            then s1\<lparr>kbd_handler := new_handler\<rparr> else s1)
      else s)"

definition kbd_handle_flush :: "kbd_state \<Rightarrow> kbd_state" where
  "kbd_handle_flush s = s\<lparr>key_head := 0, key_tail := 0\<rparr>"

definition kbd_handle_reset :: "kbd_state \<Rightarrow> kbd_state" where
  "kbd_handle_reset s = kbd_init s"

definition kbd_has_data :: "kbd_state \<Rightarrow> KbdEvent list \<Rightarrow> bool" where
  "kbd_has_data s q = (\<not> buf_empty s \<or> kbd_pending q)"

definition kbd_current_address :: "kbd_state \<Rightarrow> u8" where
  "kbd_current_address s = kbd_address s"

section \<open>Mouse emulator (adb_mouse.cpp)\<close>

record mouse_state =
  mouse_address :: u8
  mouse_handler :: u8
  accum_dx :: i16
  accum_dy :: i16
  button_pressed :: bool
  button_changed :: bool
  events_from_queue :: u32

definition mouse_boot :: mouse_state where
  "mouse_boot = \<lparr>mouse_address = ADB_ADDR_MOUSE, mouse_handler = ADB_HANDLER_MOUSE,
     accum_dx = 0, accum_dy = 0, button_pressed = False, button_changed = False,
     events_from_queue = 0\<rparr>"

text \<open>\<open>clamp7\<close>: the comparisons are signed; the final cast keeps the low eight bits.\<close>

definition clamp7 :: "i16 \<Rightarrow> i8" where
  "clamp7 val = (if sint val > 63 then 63 else if sint val < - 64 then - 64 else ucast val)"

text \<open>\<open>init\<close> leaves the diagnostic counter \<open>s_events_from_queue\<close> alone.\<close>

definition mouse_init :: "mouse_state \<Rightarrow> mouse_state" where
  "mouse_init s = s\<lparr>mouse_address := ADB_ADDR_MOUSE, mouse_handler := ADB_HANDLER_MOUSE,
     accum_dx := 0, accum_dy := 0, button_pressed := False, button_changed := False\<rparr>"

text \<open>
  \<open>process_queue\<close>: \<open>+=\<close> on \<open>int16_t\<close> adds in \<open>int\<close> and stores the low sixteen bits,
  which is word addition.
\<close>

fun mouse_process_queue :: "mouse_state \<Rightarrow> MouseEvent list \<Rightarrow> mouse_state" where
  "mouse_process_queue s [] = s"
| "mouse_process_queue s (evt # q) =
     mouse_process_queue
       (let s1 = s\<lparr>accum_dx := accum_dx s + dx evt, accum_dy := accum_dy s + dy evt,
                   events_from_queue := events_from_queue s + 1\<rparr>
        in if button evt \<noteq> button_pressed s1
           then s1\<lparr>button_pressed := button evt, button_changed := True\<rparr> else s1)
       q"

text \<open>
  \<open>handle_talk\<close>: \<open>s_accum_dx -= dx\<close> subtracts the sign-extended \<open>int8_t\<close>;
  \<open>dy & 0x7F\<close> keeps the low seven bits of the promoted value.
\<close>

definition mouse_handle_talk ::
  "u8 \<Rightarrow> mouse_state \<Rightarrow> MouseEvent list \<Rightarrow> u16 option \<times> mouse_state \<times> MouseEvent list" where
  "mouse_handle_talk reg s q =
     (if reg = 0 then
        (let s1 = mouse_process_queue s q in
         if accum_dx s1 = 0 \<and> accum_dy s1 = 0 \<and> \<not> button_changed s1 then (None, s1, [])
         else
           (let dx7 = clamp7 (accum_dx s1);
                dy7 = clamp7 (accum_dy s1);
                s2 = s1\<lparr>accum_dx := accum_dx s1 - scast dx7,
                        accum_dy := accum_dy s1 - scast dy7,
                        button_changed := False\<rparr>;
                button_bit = (if button_pressed s2 then 0x00 else 0x80 :: u8);
                byte0 = button_bit OR (dy7 AND 0x7F);
                byte1 = 0x80 OR (dx7 AND 0x7F)
            in (Some (push_bit 8 (ucast byte0) OR ucast byte1), s2, [])))
      else if reg = 3 then
        (let byte0 = 0x60 OR (mouse_address s AND 0x0F)
         in (Some (push_bit 8 (ucast byte0) OR ucast (mouse_handler s)), s, q))
      else (None, s, q))"

definition mouse_handle_listen :: "u8 \<Rightarrow> u16 \<Rightarrow> mouse_state \<Rightarrow> mouse_state" where
  "mouse_handle_listen reg data s =
     (if reg = 3 then
        (let new_addr = (ucast (drop_bit 8 data) :: u8);
             new_handler = (ucast (data AND 0xFF) :: u8);
             s1 = (if new_addr \<noteq> 0 \<and> new_addr \<noteq> 0xFE
                   then s\<lparr>mouse_address := new_addr AND 0x0F\<rparr> else s)
         in if new_handler \<noteq> 0 \<and> new_handler \<noteq> 0xFE
            then s1\<lparr>mouse_handler := new_handler\<rparr> else s1)
      else s)"

definition mouse_handle_flush :: "mouse_state \<Rightarrow> mouse_state" where
  "mouse_handle_flush s = s\<lparr>accum_dx := 0, accum_dy := 0, button_changed := False\<rparr>"

definition mouse_handle_reset :: "mouse_state \<Rightarrow> mouse_state" where
  "mouse_handle_reset s = mouse_init s"

definition mouse_has_data :: "mouse_state \<Rightarrow> MouseEvent list \<Rightarrow> bool" where
  "mouse_has_data s q =
     (accum_dx s \<noteq> 0 \<or> accum_dy s \<noteq> 0 \<or> button_changed s \<or> mouse_pending q)"

definition mouse_current_address :: "mouse_state \<Rightarrow> u8" where
  "mouse_current_address s = mouse_address s"

section \<open>Protocol engine (adb_protocol.cpp)\<close>

text \<open>
  The engine reads the bus through \<open>receive_bit\<close> and \<open>wait_for_state\<close>. What the bus
  does during one command is an input of the model: the list of the values that the
  successive calls of \<open>receive_bit\<close> return (\<open>None\<close> for \<open>-1\<close>, \<open>Some b\<close> for the bit
  \<open>b\<close>), and the value that \<open>wait_for_state\<close> returns at the start of a Listen payload.
  A bus with no further activity makes \<open>receive_bit\<close> time out, so the end of the list
  reads as \<open>None\<close>. The sample-level model of \<open>receive_bit\<close> itself is in the section on
  the bit-timing layer below.
\<close>

type_synonym bit_result = "bool option"

fun next_bit :: "bit_result list \<Rightarrow> bit_result \<times> bit_result list" where
  "next_bit [] = (None, [])"
| "next_bit (b # bits) = (b, bits)"

text \<open>
  The loop shared by \<open>receive_byte\<close> and \<open>receive_data\<close>: \<open>for (i = n - 1; i >= 0; i--)\<close>
  with the body \<open>bit = receive_bit(); if (bit < 0) return -1; result |= bit << i\<close>.
\<close>

fun receive_bits :: "nat \<Rightarrow> 'a::len word \<Rightarrow> bit_result list \<Rightarrow> 'a word option \<times> bit_result list" where
  "receive_bits 0 result bits = (Some result, bits)"
| "receive_bits (Suc i) result bits =
     (case next_bit bits of
        (None, rest) \<Rightarrow> (None, rest)
      | (Some bitv, rest) \<Rightarrow> receive_bits i (result OR push_bit i (of_bool bitv)) rest)"

definition receive_byte :: "bit_result list \<Rightarrow> u8 option \<times> bit_result list" where
  "receive_byte bits = receive_bits 8 0 bits"

definition receive_data :: "bit_result list \<Rightarrow> u16 option \<times> bit_result list" where
  "receive_data bits =
     (case next_bit bits of (start, rest) \<Rightarrow>
        if start = None \<or> start \<noteq> Some True then (None, rest)
        else (case receive_bits 16 0 rest of
                (None, rest') \<Rightarrow> (None, rest')
              | (Some result, rest') \<Rightarrow> (Some result, snd (next_bit rest'))))"

record AdbCommand =
  address :: u8
  command :: u8
  reg :: u8
  valid :: bool

definition receive_command :: "bit_result list \<Rightarrow> AdbCommand \<times> bit_result list" where
  "receive_command bits =
     (case receive_byte bits of
        (None, rest) \<Rightarrow> (\<lparr>address = 0, command = 0, reg = 0, valid = False\<rparr>, rest)
      | (Some byte, rest) \<Rightarrow>
          (\<lparr>address = drop_bit 4 byte AND 0x0F, command = drop_bit 2 byte AND 0x03,
            reg = byte AND 0x03, valid = True\<rparr>, rest))"

text \<open>
  Everything the ADB task owns: the two device state blocks, the two queues it drains,
  and the activity counters of the engine.
\<close>

record bridge =
  kbd :: kbd_state
  mouse :: mouse_state
  kbd_queue :: "KbdEvent list"
  mouse_queue :: "MouseEvent list"
  poll_count :: u32
  talk_response_count :: u32

definition bridge_boot :: bridge where
  "bridge_boot = \<lparr>kbd = kbd_boot, mouse = mouse_boot, kbd_queue = [], mouse_queue = [],
     poll_count = 0, talk_response_count = 0\<rparr>"

text \<open>
  What one dispatch drives onto the bus: whether \<open>consume_stop_bit\<close> was called with
  \<open>do_srq = true\<close> (it then calls \<open>assert_srq\<close>), and the word given to \<open>send_data\<close>.
\<close>

record bus_out =
  srq :: bool
  response :: "u16 option"

definition bus_idle :: bus_out where
  "bus_idle = \<lparr>srq = False, response = None\<rparr>"

text \<open>
  \<open>handle_command\<close>. \<open>listen_wait\<close> is what \<open>wait_for_state(false, ADB_TLT_MAX_US + 100)\<close>
  returns in the Listen branch and \<open>bits\<close> what \<open>receive_bit\<close> returns from then on.
  Interrupt masking, the display counters and the serial log are not modelled.
\<close>

definition handle_command ::
  "AdbCommand \<Rightarrow> u32 \<Rightarrow> bit_result list \<Rightarrow> bridge \<Rightarrow> bridge \<times> bus_out" where
  "handle_command cmd listen_wait bits b =
     (let b0 = b\<lparr>poll_count := poll_count b + 1\<rparr>;
          is_kbd = (address cmd = kbd_current_address (kbd b0));
          is_mouse = (address cmd = mouse_current_address (mouse b0))
      in
      if \<not> is_kbd \<and> \<not> is_mouse then
        (let want_srq = (kbd_has_data (kbd b0) (kbd_queue b0)
                         \<or> mouse_has_data (mouse b0) (mouse_queue b0))
         in (b0, \<lparr>srq = want_srq, response = None\<rparr>))
      else
        (let other_has_data =
               (if is_kbd then mouse_has_data (mouse b0) (mouse_queue b0)
                else kbd_has_data (kbd b0) (kbd_queue b0))
         in
         if command cmd = ADB_CMD_TALK then
           (let (has_response, b1) =
                  (if is_kbd then
                     (case kbd_handle_talk (reg cmd) (kbd b0) (kbd_queue b0) of
                        (r, k, q) \<Rightarrow> (r, b0\<lparr>kbd := k, kbd_queue := q\<rparr>))
                   else
                     (case mouse_handle_talk (reg cmd) (mouse b0) (mouse_queue b0) of
                        (r, m, q) \<Rightarrow> (r, b0\<lparr>mouse := m, mouse_queue := q\<rparr>)))
            in (case has_response of
                  Some data \<Rightarrow>
                    (b1\<lparr>talk_response_count := talk_response_count b1 + 1\<rparr>,
                     \<lparr>srq = other_has_data, response = Some data\<rparr>)
                | None \<Rightarrow> (b1, \<lparr>srq = other_has_data, response = None\<rparr>)))
         else if command cmd = ADB_CMD_LISTEN then
           (if listen_wait = 0 then (b0, \<lparr>srq = other_has_data, response = None\<rparr>)
            else
              (case fst (receive_data bits) of
                 None \<Rightarrow> (b0, \<lparr>srq = other_has_data, response = None\<rparr>)
               | Some data \<Rightarrow>
                   (if is_kbd then b0\<lparr>kbd := kbd_handle_listen (reg cmd) data (kbd b0)\<rparr>
                    else b0\<lparr>mouse := mouse_handle_listen (reg cmd) data (mouse b0)\<rparr>,
                    \<lparr>srq = other_has_data, response = None\<rparr>)))
         else if command cmd = ADB_CMD_FLUSH then
           (let b1 = (if is_kbd then b0\<lparr>kbd := kbd_handle_flush (kbd b0)\<rparr> else b0);
                b2 = (if is_mouse then b1\<lparr>mouse := mouse_handle_flush (mouse b1)\<rparr> else b1)
            in (b2, \<lparr>srq = other_has_data, response = None\<rparr>))
         else if command cmd = ADB_CMD_RESET then
           (let b1 = (if is_kbd then b0\<lparr>kbd := kbd_handle_reset (kbd b0)\<rparr> else b0);
                b2 = (if is_mouse then b1\<lparr>mouse := mouse_handle_reset (mouse b1)\<rparr> else b1)
            in (b2, \<lparr>srq = other_has_data, response = None\<rparr>))
         else (b0, \<lparr>srq = other_has_data, response = None\<rparr>)))"

text \<open>
  One pass of \<open>bus_loop\<close> from the point where the low pulse has been measured:
  \<open>low_duration\<close> is the measured length of the pulse, \<open>sync\<close> the measured length of the
  high phase that follows an attention pulse, \<open>bits\<close> and \<open>listen_wait\<close> as above.
\<close>

definition bus_loop_pulse ::
  "u32 \<Rightarrow> u32 \<Rightarrow> u32 \<Rightarrow> bit_result list \<Rightarrow> bridge \<Rightarrow> bridge \<times> bus_out" where
  "bus_loop_pulse low_duration sync listen_wait bits b =
     (if low_duration \<ge> ADB_RESET_MIN_US then
        (b\<lparr>kbd := kbd_handle_reset (kbd b), mouse := mouse_handle_reset (mouse b)\<rparr>, bus_idle)
      else if low_duration \<ge> ADB_ATTN_MIN_US \<and> low_duration \<le> ADB_ATTN_MAX_US then
        (if sync > 0 then
           (case receive_command bits of (cmd, rest) \<Rightarrow>
              if valid cmd then handle_command cmd listen_wait rest b else (b, bus_idle))
         else (b, bus_idle))
      else (b, bus_idle))"

section \<open>Bit-timing layer (adb_platform.cpp, receive_bit)\<close>

text \<open>
  The hardware is what the code can observe of it: the values that the successive calls
  of \<open>read_pin\<close> return and the values that the successive calls of \<open>micros_now\<close>
  return. Each call takes the next sample; a function that needs a sample when none is
  left returns \<open>None\<close> (the recorded trace was too short to decide the call).
\<close>

type_synonym hw = "bool list \<times> u32 list"

text \<open>
  The loop of \<open>wait_for_state\<close>: one \<open>read_pin\<close>, then one \<open>micros_now\<close>, either for
  the time-out test or for the value returned. The subtraction is on \<open>uint32_t\<close>.
\<close>

fun wait_loop :: "bool \<Rightarrow> u32 \<Rightarrow> u32 \<Rightarrow> bool list \<Rightarrow> u32 list \<Rightarrow> (u32 \<times> hw) option" where
  "wait_loop state timeout_us start (p # ps) (c # cs) =
     (if p \<noteq> state then
        (let elapsed = c - start in
         if elapsed \<ge> timeout_us then Some (0, (ps, cs))
         else wait_loop state timeout_us start ps cs)
      else Some (c - start, (ps, cs)))"
| "wait_loop state timeout_us start ps cs = None"

definition wait_for_state :: "bool \<Rightarrow> u32 \<Rightarrow> hw \<Rightarrow> (u32 \<times> hw) option" where
  "wait_for_state state timeout_us h =
     (case snd h of [] \<Rightarrow> None | start # cs \<Rightarrow> wait_loop state timeout_us start (fst h) cs)"

fun measure_loop :: "bool \<Rightarrow> u32 \<Rightarrow> u32 \<Rightarrow> bool list \<Rightarrow> u32 list \<Rightarrow> (u32 \<times> hw) option" where
  "measure_loop state timeout_us start (p # ps) (c # cs) =
     (if p = state then
        (let elapsed = c - start in
         if elapsed \<ge> timeout_us then Some (elapsed, (ps, cs))
         else measure_loop state timeout_us start ps cs)
      else Some (c - start, (ps, cs)))"
| "measure_loop state timeout_us start ps cs = None"

definition measure_pulse :: "bool \<Rightarrow> u32 \<Rightarrow> hw \<Rightarrow> (u32 \<times> hw) option" where
  "measure_pulse state timeout_us h =
     (case fst h of
        [] \<Rightarrow> None
      | p # ps \<Rightarrow>
          if p \<noteq> state then Some (0, (ps, snd h))
          else (case snd h of
                  [] \<Rightarrow> None
                | start # cs \<Rightarrow> measure_loop state timeout_us start ps cs))"

text \<open>\<open>receive_bit\<close> on the samples: \<open>Some None\<close> is the return value \<open>-1\<close>.\<close>

definition receive_bit :: "hw \<Rightarrow> (bit_result \<times> hw) option" where
  "receive_bit h =
     (case wait_for_state False (ADB_BIT_CELL_US * 2) h of
        None \<Rightarrow> None
      | Some (w, h1) \<Rightarrow>
          if w = 0 then Some (None, h1)
          else (case measure_pulse False (ADB_BIT_CELL_US + ADB_TIMING_TOLERANCE_US) h1 of
                  None \<Rightarrow> None
                | Some (low_time, h2) \<Rightarrow>
                    if low_time = 0 then Some (None, h2)
                    else (case wait_for_state True ADB_BIT_CELL_US h2 of
                            None \<Rightarrow> None
                          | Some (w', h3) \<Rightarrow>
                              Some (Some (low_time < ADB_BIT_THRESHOLD_US), h3))))"

text \<open>
  The specification's \<open>wait_for_state(target, timeout_us) -> Option<elapsed_us>\<close>, written
  from its words on the same samples: the elapsed time when the line reaches the target,
  \<open>None\<close> on time-out. It is the yardstick the code's return value is compared with.
\<close>

fun wait_outcome_loop ::
  "bool \<Rightarrow> u32 \<Rightarrow> u32 \<Rightarrow> bool list \<Rightarrow> u32 list \<Rightarrow> (u32 option \<times> hw) option" where
  "wait_outcome_loop target timeout_us start (p # ps) (c # cs) =
     (if p = target then Some (Some (c - start), (ps, cs))
      else if c - start \<ge> timeout_us then Some (None, (ps, cs))
      else wait_outcome_loop target timeout_us start ps cs)"
| "wait_outcome_loop target timeout_us start ps cs = None"

definition wait_for_state_spec :: "bool \<Rightarrow> u32 \<Rightarrow> hw \<Rightarrow> (u32 option \<times> hw) option" where
  "wait_for_state_spec target timeout_us h =
     (case snd h of
        [] \<Rightarrow> None
      | start # cs \<Rightarrow> wait_outcome_loop target timeout_us start (fst h) cs)"

section \<open>Keyboard report parsing (ble_hid_host.cpp, keycode_map.h)\<close>

definition ADB_KEY_NONE :: u8 where "ADB_KEY_NONE = 0xFF"

text \<open>
  \<open>ModifierMapping\<close> and the table \<open>MODIFIER_MAP\<close>. The field \<open>adb_keycode\<close> of the
  C struct is \<open>mod_keycode\<close> here, since \<open>KbdEvent\<close> has a field of the same name.
\<close>

record ModifierMapping =
  usb_mask :: u8
  mod_keycode :: u8

definition MODIFIER_MAP :: "ModifierMapping list" where
  "MODIFIER_MAP =
     [\<lparr>usb_mask = 0x01, mod_keycode = 0x36\<rparr>,
      \<lparr>usb_mask = 0x02, mod_keycode = 0x38\<rparr>,
      \<lparr>usb_mask = 0x04, mod_keycode = 0x3A\<rparr>,
      \<lparr>usb_mask = 0x08, mod_keycode = 0x37\<rparr>,
      \<lparr>usb_mask = 0x10, mod_keycode = 0x7D\<rparr>,
      \<lparr>usb_mask = 0x20, mod_keycode = 0x7B\<rparr>,
      \<lparr>usb_mask = 0x40, mod_keycode = 0x7C\<rparr>,
      \<lparr>usb_mask = 0x80, mod_keycode = 0x37\<rparr>]"

definition MODIFIER_MAP_SIZE :: nat where
  "MODIFIER_MAP_SIZE = length MODIFIER_MAP"

text \<open>
  The part of \<open>BleDevice\<close> that \<open>on_keyboard_report\<close> reads and writes, with the three
  report counters. The time stamp and the per-handle statistics are not modelled.
\<close>

record ble_keyboard =
  prev_keys :: "u8 list"
  prev_modifiers :: u8
  cb_count :: u32
  cb_used :: u32
  cb_dropped :: u32

definition ble_keyboard_boot :: ble_keyboard where
  "ble_keyboard_boot = \<lparr>prev_keys = replicate 6 0, prev_modifiers = 0,
     cb_count = 0, cb_used = 0, cb_dropped = 0\<rparr>"

text \<open>The modifier loop, \<open>for (i = 0; i < MODIFIER_MAP_SIZE; i++)\<close>, from entry \<open>i\<close> on.\<close>

fun modifier_events :: "u8 \<Rightarrow> u8 \<Rightarrow> ModifierMapping list \<Rightarrow> KbdEvent list" where
  "modifier_events modifiers mod_diff [] = []"
| "modifier_events modifiers mod_diff (m # ms) =
     (if mod_diff AND usb_mask m \<noteq> 0
      then [\<lparr>adb_keycode = mod_keycode m, released = (modifiers AND usb_mask m = 0)\<rparr>]
      else [])
     @ modifier_events modifiers mod_diff ms"

text \<open>The inner loops: is the key in bytes 2..7 of the report, is it in \<open>prev_keys\<close>.\<close>

definition still_pressed :: "u8 list \<Rightarrow> u8 \<Rightarrow> bool" where
  "still_pressed data prev_key =
     list_ex (\<lambda>j. data ! j = prev_key) [2..<min 8 (length data)]"

definition was_pressed :: "u8 list \<Rightarrow> u8 \<Rightarrow> bool" where
  "was_pressed pk cur_key = list_ex (\<lambda>i. pk ! i = cur_key) [0..<6]"

definition release_events :: "(u8 \<Rightarrow> u8) \<Rightarrow> u8 list \<Rightarrow> u8 list \<Rightarrow> KbdEvent list" where
  "release_events usb_to_adb pk data =
     concat (map (\<lambda>i.
       (let prev_key = pk ! i in
        if prev_key = 0 then []
        else if \<not> still_pressed data prev_key then
          (let adb_code = usb_to_adb prev_key in
           if adb_code \<noteq> ADB_KEY_NONE then [\<lparr>adb_keycode = adb_code, released = True\<rparr>]
           else [])
        else [])) [0..<6])"

definition press_events :: "(u8 \<Rightarrow> u8) \<Rightarrow> u8 list \<Rightarrow> u8 list \<Rightarrow> KbdEvent list" where
  "press_events usb_to_adb pk data =
     concat (map (\<lambda>j.
       (let cur_key = data ! j in
        if cur_key = 0 then []
        else if \<not> was_pressed pk cur_key then
          (let adb_code = usb_to_adb cur_key in
           if adb_code \<noteq> ADB_KEY_NONE then [\<lparr>adb_keycode = adb_code, released = False\<rparr>]
           else [])
        else [])) [2..<min 8 (length data)])"

text \<open>
  \<open>on_keyboard_report\<close>: \<open>data\<close> is the payload, its length the \<open>length\<close> argument. The
  translation table \<open>usb_to_adb\<close> is a parameter. The result is the new state and the
  events handed to \<open>send_kbd\<close>, in order.
\<close>

definition on_keyboard_report ::
  "(u8 \<Rightarrow> u8) \<Rightarrow> u8 list \<Rightarrow> ble_keyboard \<Rightarrow> ble_keyboard \<times> KbdEvent list" where
  "on_keyboard_report usb_to_adb data s =
     (let s0 = s\<lparr>cb_count := cb_count s + 1\<rparr> in
      if length data < 8 then (s0\<lparr>cb_dropped := cb_dropped s0 + 1\<rparr>, [])
      else
        (let s1 = s0\<lparr>cb_used := cb_used s0 + 1\<rparr>;
             modifiers = data ! 0;
             mod_diff = modifiers XOR prev_modifiers s1;
             mod_evts = (if mod_diff \<noteq> 0 then modifier_events modifiers mod_diff MODIFIER_MAP
                         else []);
             s2 = (if mod_diff \<noteq> 0 then s1\<lparr>prev_modifiers := modifiers\<rparr> else s1);
             rel_evts = release_events usb_to_adb (prev_keys s2) data;
             prs_evts = press_events usb_to_adb (prev_keys s2) data;
             s3 = s2\<lparr>prev_keys :=
                       map (\<lambda>i. if i + 2 < length data then data ! (i + 2) else 0) [0..<6]\<rparr>
         in (s3, mod_evts @ rel_evts @ prs_evts)))"

section \<open>Abstract views used in the statements\<close>

text \<open>The events the ring holds, oldest first: the slots from the tail up to the head.\<close>

definition ring_count :: "kbd_state \<Rightarrow> nat" where
  "ring_count s = (key_head s + KEY_BUF_SIZE - key_tail s) mod KEY_BUF_SIZE"

definition ring_list :: "kbd_state \<Rightarrow> u8 list" where
  "ring_list s = map (\<lambda>i. key_buf s ! ((key_tail s + i) mod KEY_BUF_SIZE)) [0..<ring_count s]"

text \<open>The indices are inside the array, which has its 32 slots.\<close>

definition kbd_wf :: "kbd_state \<Rightarrow> bool" where
  "kbd_wf s = (length (key_buf s) = KEY_BUF_SIZE \<and> key_head s < KEY_BUF_SIZE
               \<and> key_tail s < KEY_BUF_SIZE)"

text \<open>The 7-bit saturation of the specification, on integers.\<close>

definition clamp :: "int \<Rightarrow> int \<Rightarrow> int \<Rightarrow> int" where
  "clamp x lo hi = (if x > hi then hi else if x < lo then lo else x)"

text \<open>
  The Talk R0 word in the specification's words: \<open>dx7\<close> and \<open>dy7\<close> are the accumulators
  saturated to \<open>[-64, 63]\<close>, \<open>byte0 = (button_pressed ? 0 : 0x80) | (dy7 & 0x7F)\<close>,
  \<open>byte1 = 0x80 | (dx7 & 0x7F)\<close>, and the word is \<open>[byte0][byte1]\<close>.
\<close>

definition mouse_report_word :: "mouse_state \<Rightarrow> u16" where
  "mouse_report_word s =
     (let dx7 = (word_of_int (clamp (sint (accum_dx s)) (- 64) 63) :: u8);
          dy7 = (word_of_int (clamp (sint (accum_dy s)) (- 64) 63) :: u8);
          byte0 = (if button_pressed s then 0 else 0x80) OR (dy7 AND 0x7F);
          byte1 = 0x80 OR (dx7 AND 0x7F)
      in push_bit 8 (ucast byte0) OR ucast byte1)"

text \<open>Sequences of host commands to one emulator, and of ring operations.\<close>

datatype kbd_op = KTalk u8 "KbdEvent list" | KListen u8 u16 | KFlush | KReset

fun kbd_step :: "kbd_state \<Rightarrow> kbd_op \<Rightarrow> kbd_state" where
  "kbd_step s (KTalk r q) = fst (snd (kbd_handle_talk r s q))"
| "kbd_step s (KListen r d) = kbd_handle_listen r d s"
| "kbd_step s KFlush = kbd_handle_flush s"
| "kbd_step s KReset = kbd_handle_reset s"

datatype mouse_op = MTalk u8 "MouseEvent list" | MListen u8 u16 | MFlush | MReset

fun mouse_step :: "mouse_state \<Rightarrow> mouse_op \<Rightarrow> mouse_state" where
  "mouse_step s (MTalk r q) = fst (snd (mouse_handle_talk r s q))"
| "mouse_step s (MListen r d) = mouse_handle_listen r d s"
| "mouse_step s MFlush = mouse_handle_flush s"
| "mouse_step s MReset = mouse_handle_reset s"

datatype ring_op = Push u8 | Pop

fun ring_step :: "kbd_state \<Rightarrow> ring_op \<Rightarrow> kbd_state" where
  "ring_step s (Push e) = buf_push e s"
| "ring_step s Pop = snd (buf_pop s)"

text \<open>Bit \<open>i\<close> of a received frame, \<open>None\<close> past the end as \<open>next_bit\<close> reads it.\<close>

definition bit_at :: "bit_result list \<Rightarrow> nat \<Rightarrow> bit_result" where
  "bit_at bits i = (if i < length bits then bits ! i else None)"

text \<open>
  Example inputs. \<open>s6_bridge\<close> is the power-on state with one key press queued.
  \<open>frame_0x0600\<close> is a Listen payload as \<open>receive_bit\<close> reports it: start bit 1, the
  sixteen bits of \<open>0x0600\<close>, stop bit 0. In \<open>frame_0x0600_no_stop\<close> the stop bit times
  out, in \<open>frame_bad_start\<close> the start bit reads 0, in \<open>frame_short\<close> the host stops
  after five data bits.
\<close>

definition s6_bridge :: bridge where
  "s6_bridge = bridge_boot\<lparr>kbd_queue := [\<lparr>adb_keycode = 0x00, released = False\<rparr>]\<rparr>"

definition bits_0x0600 :: "bit_result list" where
  "bits_0x0600 = map Some [False, False, False, False, False, True, True, False,
                           False, False, False, False, False, False, False, False]"

definition frame_0x0600 :: "bit_result list" where
  "frame_0x0600 = Some True # bits_0x0600 @ [Some False]"

definition frame_0x0600_no_stop :: "bit_result list" where
  "frame_0x0600_no_stop = Some True # bits_0x0600 @ [None]"

definition frame_bad_start :: "bit_result list" where
  "frame_bad_start = Some False # bits_0x0600 @ [Some False]"

definition frame_short :: "bit_result list" where
  "frame_short = Some True # take 5 bits_0x0600"

definition listen_kbd_r3 :: AdbCommand where
  "listen_kbd_r3 = \<lparr>address = 2, command = 2, reg = 3, valid = True\<rparr>"

text \<open>
  \<open>talk_kbd_r0_bits\<close> is the command byte \<open>0x2C\<close> (address 2, Talk, register 0) as
  \<open>receive_bit\<close> reports it. \<open>enumerated_bridge\<close> is a state away from the defaults:
  keyboard moved to address 6 with three events in the ring, mouse with a residual.
\<close>

definition talk_kbd_r0_bits :: "bit_result list" where
  "talk_kbd_r0_bits = map Some [False, False, True, False, True, True, False, False]"

definition enumerated_bridge :: bridge where
  "enumerated_bridge =
     bridge_boot\<lparr>kbd := kbd_boot\<lparr>kbd_address := 6, key_head := 3, register2 := 0xFFFB\<rparr>,
                 mouse := mouse_boot\<lparr>mouse_address := 9, accum_dx := 137,
                                     button_pressed := True\<rparr>\<rparr>"

text \<open>
  A stand-in for the translation table in the examples: only USB \<open>0x04\<close> (A) is mapped,
  to ADB \<open>0x00\<close>. \<open>report_shift_a\<close> is the boot report "left shift and A down",
  \<open>report_shift\<close> the report "left shift down".
\<close>

definition only_a_mapped :: "u8 \<Rightarrow> u8" where
  "only_a_mapped k = (if k = 0x04 then 0x00 else ADB_KEY_NONE)"

definition report_shift_a :: "u8 list" where
  "report_shift_a = [0x02, 0, 0x04, 0, 0, 0, 0, 0]"

definition report_shift :: "u8 list" where
  "report_shift = [0x02, 0, 0, 0, 0, 0, 0, 0]"

lemmas config_defs =
  ADB_ATTN_MIN_US_def ADB_ATTN_MAX_US_def ADB_BIT_CELL_US_def ADB_BIT_THRESHOLD_US_def
  ADB_TIMING_TOLERANCE_US_def ADB_TLT_MAX_US_def ADB_RESET_MIN_US_def
  ADB_ADDR_KEYBOARD_def ADB_ADDR_MOUSE_def
  ADB_CMD_RESET_def ADB_CMD_FLUSH_def ADB_CMD_LISTEN_def ADB_CMD_TALK_def
  ADB_HANDLER_KEYBOARD_def ADB_HANDLER_MOUSE_def

section \<open>Device addresses\<close>

lemma kbd_process_queue_address [simp]:
  "kbd_address (kbd_process_queue s q) = kbd_address s"
  by (induction q arbitrary: s) (simp_all add: buf_push_def)

lemma mouse_process_queue_address [simp]:
  "mouse_address (mouse_process_queue s q) = mouse_address s"
  by (induction q arbitrary: s) (simp_all add: Let_def)

lemma and_0x0F_lt_16: "(w :: u8) AND 0x0F < 16"
proof -
  have "w AND 0x0F \<le> 0x0F" by (rule word_and_le1)
  then show ?thesis by (simp add: word_le_nat_alt word_less_nat_alt)
qed

lemma kbd_step_address_lt_16: "kbd_address s < 16 \<Longrightarrow> kbd_address (kbd_step s x) < 16"
  by (cases x)
    (auto simp: kbd_handle_talk_def kbd_handle_listen_def kbd_handle_flush_def
      kbd_handle_reset_def kbd_init_def buf_pop_def Let_def config_defs and_0x0F_lt_16
      split: prod.splits if_splits)

lemma kbd_run_address_lt_16: "kbd_address s < 16 \<Longrightarrow> kbd_address (foldl kbd_step s ops) < 16"
  by (induction ops arbitrary: s) (simp_all add: kbd_step_address_lt_16)

lemma mouse_step_address_lt_16: "mouse_address s < 16 \<Longrightarrow> mouse_address (mouse_step s x) < 16"
  by (cases x)
    (auto simp: mouse_handle_talk_def mouse_handle_listen_def mouse_handle_flush_def
      mouse_handle_reset_def mouse_init_def Let_def config_defs and_0x0F_lt_16
      split: prod.splits if_splits)

lemma mouse_run_address_lt_16:
  "mouse_address s < 16 \<Longrightarrow> mouse_address (foldl mouse_step s ops) < 16"
  by (induction ops arbitrary: s) (simp_all add: mouse_step_address_lt_16)

text \<open>
  From power-on, under any sequence of Talk, Listen, Flush and Reset commands, both
  addresses stay below 16, so neither is ever \<open>0xFE\<close>.
\<close>

lemma address_never_0xFE:
  "kbd_address (foldl kbd_step kbd_boot ops) \<noteq> 0xFE
   \<and> mouse_address (foldl mouse_step mouse_boot ops') \<noteq> 0xFE"
proof -
  have "kbd_address (foldl kbd_step kbd_boot ops) < 16"
    by (rule kbd_run_address_lt_16) (simp add: kbd_boot_def config_defs)
  moreover have "mouse_address (foldl mouse_step mouse_boot ops') < 16"
    by (rule mouse_run_address_lt_16) (simp add: mouse_boot_def config_defs)
  ultimately show ?thesis by auto
qed

text \<open>
  C1. The claim is that the address of neither emulator ever becomes 0, and that a
  Listen R3 whose high byte is neither 0 nor \<open>0xFE\<close> never stores the address 0. The
  handlers test the whole high byte against 0 and store its low four bits: at power-on,
  Listen R3 with the payload \<open>0x1000\<close> (high byte \<open>0x10\<close>) leaves the keyboard, and
  likewise the mouse, at address 0.
\<close>

theorem listen_r3_address_zero:
  "kbd_address (foldl kbd_step kbd_boot [KListen 3 0x1000]) = 0
   \<and> mouse_address (foldl mouse_step mouse_boot [MListen 3 0x1000]) = 0"
  by (simp add: kbd_handle_listen_def mouse_handle_listen_def kbd_boot_def mouse_boot_def)

section \<open>Mouse Talk R0 and Flush\<close>

lemma sint_clamp7: "sint (clamp7 a) = clamp (sint a) (- 64) 63"
proof -
  consider "sint a > 63" | "sint a < - 64" | "- 64 \<le> sint a" "sint a \<le> 63" by linarith
  then show ?thesis
  proof cases
    case 1 then show ?thesis by (simp add: clamp7_def clamp_def)
  next
    case 2 then show ?thesis by (simp add: clamp7_def clamp_def)
  next
    case 3
    have "sint (ucast a :: 8 word) = signed_take_bit 7 (sint a)"
      by (simp add: sint_uint signed_take_bit_eq_iff_take_bit_eq take_bit_signed_take_bit
          unsigned_ucast_eq min_def)
    also have "\<dots> = sint a"
      using 3 by (simp add: signed_take_bit_int_eq_self)
    finally show ?thesis using 3 by (simp add: clamp7_def clamp_def)
  qed
qed

lemma clamp7_word_of_int: "clamp7 a = word_of_int (clamp (sint a) (- 64) 63)"
  by (simp flip: sint_clamp7)

lemma sint_scast_i8: "sint (scast (w :: 8 word) :: 16 word) = sint w"
  by (simp add: sint_up_scast is_up)

text \<open>The subtraction of the reported amount never wraps.\<close>

lemma accum_residual:
  "sint (a - scast (clamp7 a) :: 16 word) = sint a - clamp (sint a) (- 64) 63"
proof -
  have r: "- 32768 \<le> sint a" "sint a < 32768"
    using sint_ge [of a] sint_lt [of a] by simp_all
  have "sint (a - scast (clamp7 a)) = signed_take_bit 15 (sint a - clamp (sint a) (- 64) 63)"
    by (simp add: sint_word_ariths sint_scast_i8 sint_clamp7)
  also have "\<dots> = sint a - clamp (sint a) (- 64) 63"
    using r by (intro signed_take_bit_int_eq_self) (auto simp: clamp_def)
  finally show ?thesis .
qed

lemma mouse_report_word_clamp7:
  "mouse_report_word s =
     push_bit 8 (ucast ((if button_pressed s then 0 else 0x80) OR (clamp7 (accum_dy s) AND 0x7F) :: u8))
       OR ucast (0x80 OR (clamp7 (accum_dx s) AND 0x7F) :: u8)"
  by (simp only: mouse_report_word_def Let_def clamp7_word_of_int)

lemma clamp_0 [simp]: "clamp 0 (- 64) 63 = 0"
  by (simp add: clamp_def)

text \<open>
  C2, as stated, at the power-on state with an empty queue: Talk R0 returns no data, not
  the word \<open>[byte0][byte1]\<close> that the claim gives for every state.
\<close>

theorem mouse_talk_r0_idle_counterexample:
  "fst (mouse_handle_talk 0 mouse_boot []) = None
   \<and> fst (mouse_handle_talk 0 mouse_boot [])
       \<noteq> Some (mouse_report_word (mouse_process_queue mouse_boot []))"
  by (simp add: mouse_handle_talk_def mouse_boot_def)

text \<open>
  C2, amended. Let \<open>s1\<close> be the state after draining the queue. In every state Talk R0
  empties the queue, leaves each accumulator at the old value minus the old value
  saturated to \<open>[-64, 63]\<close>, and keeps \<open>button_pressed\<close>, the address and the handler.
  If \<open>accum_dx = 0\<close>, \<open>accum_dy = 0\<close> and \<open>button_changed\<close> is clear in \<open>s1\<close>, it
  returns no data and the state is \<open>s1\<close>; otherwise it returns the word \<open>[byte0][byte1]\<close>
  with \<open>byte0 = (button_pressed ? 0 : 0x80) | (dy7 & 0x7F)\<close> and
  \<open>byte1 = 0x80 | (dx7 & 0x7F)\<close>, and clears \<open>button_changed\<close>.
\<close>

theorem mouse_talk_r0_report:
  "(case mouse_handle_talk 0 s q of (r, s2, q') \<Rightarrow>
      let s1 = mouse_process_queue s q in
      q' = [] \<and>
      sint (accum_dx s2) = sint (accum_dx s1) - clamp (sint (accum_dx s1)) (- 64) 63 \<and>
      sint (accum_dy s2) = sint (accum_dy s1) - clamp (sint (accum_dy s1)) (- 64) 63 \<and>
      button_pressed s2 = button_pressed s1 \<and>
      mouse_address s2 = mouse_address s1 \<and> mouse_handler s2 = mouse_handler s1 \<and>
      (if accum_dx s1 = 0 \<and> accum_dy s1 = 0 \<and> \<not> button_changed s1
       then r = None \<and> s2 = s1
       else r = Some (mouse_report_word s1) \<and> button_changed s2 = False))"
  by (simp add: mouse_handle_talk_def Let_def accum_residual mouse_report_word_clamp7)

text \<open>
  The scenario of the claim: one queued event \<open>{dx: 200, dy: -200, button: false}\<close> at
  power-on. Talk R0 returns \<open>0xC0BF\<close> and leaves \<open>accum_dx = 137\<close>, \<open>accum_dy = -136\<close>.
\<close>

theorem mouse_talk_r0_report_witness:
  "\<not> (accum_dx (mouse_process_queue mouse_boot [\<lparr>dx = 200, dy = - 200, button = False\<rparr>]) = 0
      \<and> accum_dy (mouse_process_queue mouse_boot [\<lparr>dx = 200, dy = - 200, button = False\<rparr>]) = 0
      \<and> \<not> button_changed
            (mouse_process_queue mouse_boot [\<lparr>dx = 200, dy = - 200, button = False\<rparr>]))
   \<and> (case mouse_handle_talk 0 mouse_boot [\<lparr>dx = 200, dy = - 200, button = False\<rparr>] of
        (r, s2, q') \<Rightarrow> r = Some 0xC0BF \<and> sint (accum_dx s2) = 137 \<and> sint (accum_dy s2) = - 136
           \<and> button_changed s2 = False \<and> q' = [])"
  using mouse_talk_r0_report [of mouse_boot "[\<lparr>dx = 200, dy = - 200, button = False\<rparr>]"]
  by (simp add: mouse_boot_def mouse_report_word_def clamp_def Let_def split: prod.splits)

text \<open>
  C9. In every mouse state, Flush sets \<open>accum_dx\<close> and \<open>accum_dy\<close> to 0 and
  \<open>button_changed\<close> to false, and leaves \<open>button_pressed\<close>, the address and the handler
  as they were.
\<close>

theorem mouse_flush_effect:
  "accum_dx (mouse_handle_flush s) = 0 \<and> accum_dy (mouse_handle_flush s) = 0
   \<and> button_changed (mouse_handle_flush s) = False
   \<and> button_pressed (mouse_handle_flush s) = button_pressed s
   \<and> mouse_address (mouse_handle_flush s) = mouse_address s
   \<and> mouse_handler (mouse_handle_flush s) = mouse_handler s"
  by (simp add: mouse_handle_flush_def)

section \<open>The key ring\<close>

text \<open>Index arithmetic modulo 32, for indices below 32.\<close>

lemma count_cases:
  fixes h t :: nat
  assumes "h < 32" "t < 32"
  shows "(h + 32 - t) mod 32 = (if t \<le> h then h - t else h + 32 - t)"
  using assms by (auto simp: mod_if not_le)

lemma succ_mod32: "(h::nat) < 32 \<Longrightarrow> Suc h mod 32 = (if h = 31 then 0 else Suc h)"
  by (auto simp: mod_if)

lemma ring_arith_empty:
  fixes h t :: nat assumes "h < 32" "t < 32"
  shows "((h + 32 - t) mod 32 = 0) = (h = t)"
  using assms by (auto simp: count_cases)

lemma ring_arith_full:
  fixes h t :: nat assumes "h < 32" "t < 32"
  shows "(Suc h mod 32 = t) = ((h + 32 - t) mod 32 = 31)"
  using assms by (auto simp: count_cases succ_mod32)

lemma ring_arith_push:
  fixes h t :: nat assumes "h < 32" "t < 32" "Suc h mod 32 \<noteq> t"
  shows "(Suc h mod 32 + 32 - t) mod 32 = Suc ((h + 32 - t) mod 32)"
proof -
  have "Suc h mod 32 < 32" by simp
  then show ?thesis
    using assms by (simp add: count_cases) (auto simp: succ_mod32 split: if_splits)
qed

lemma ring_arith_pop:
  fixes h t :: nat assumes "h < 32" "t < 32" "h \<noteq> t"
  shows "(h + 32 - Suc t mod 32) mod 32 = (h + 32 - t) mod 32 - 1" "0 < (h + 32 - t) mod 32"
proof -
  have "Suc t mod 32 < 32" by simp
  then show "(h + 32 - Suc t mod 32) mod 32 = (h + 32 - t) mod 32 - 1"
    using assms by (simp add: count_cases) (auto simp: succ_mod32 split: if_splits)
  show "0 < (h + 32 - t) mod 32"
    using assms by (auto simp: count_cases)
qed

lemma add_mod32:
  fixes t i :: nat assumes "t < 32" "i < 32"
  shows "(t + i) mod 32 = (if t + i < 32 then t + i else t + i - 32)"
  using assms by (auto simp: mod_if)

lemma ring_arith_idx_neq:
  fixes h t :: nat assumes "h < 32" "t < 32" "i < (h + 32 - t) mod 32"
  shows "(t + i) mod 32 \<noteq> h"
proof -
  have "i < 32" using assms(3) by (meson less_trans mod_less_divisor zero_less_numeral)
  then show ?thesis
    using assms by (auto simp: count_cases add_mod32 split: if_splits)
qed

lemma ring_arith_idx_head:
  fixes h t :: nat assumes "h < 32" "t < 32"
  shows "(t + (h + 32 - t) mod 32) mod 32 = h"
  using assms by (auto simp: count_cases mod_if)


lemma ring_count_le: "ring_count s \<le> 31"
proof -
  have "(key_head s + 32 - key_tail s) mod 32 < 32" by (rule mod_less_divisor) simp
  then show ?thesis by (simp add: ring_count_def KEY_BUF_SIZE_def)
qed

lemma length_ring_list [simp]: "length (ring_list s) = ring_count s"
  by (simp add: ring_list_def)

lemma buf_empty_iff: "kbd_wf s \<Longrightarrow> buf_empty s \<longleftrightarrow> ring_count s = 0"
  using ring_arith_empty [of "key_head s" "key_tail s"]
  by (simp add: buf_empty_def ring_count_def kbd_wf_def KEY_BUF_SIZE_def)

lemma buf_full_iff: "kbd_wf s \<Longrightarrow> buf_full s \<longleftrightarrow> ring_count s = 31"
  by (simp add: buf_full_def ring_count_def kbd_wf_def KEY_BUF_SIZE_def ring_arith_full)

lemma buf_push_full: "buf_full s \<Longrightarrow> buf_push e s = s"
  by (simp add: buf_push_def)

lemma buf_push_wf: "kbd_wf s \<Longrightarrow> kbd_wf (buf_push e s)"
  by (simp add: buf_push_def kbd_wf_def KEY_BUF_SIZE_def)

lemma buf_push_count:
  assumes "kbd_wf s" "\<not> buf_full s"
  shows "ring_count (buf_push e s) = Suc (ring_count s)"
  using assms
  by (simp add: buf_push_def buf_full_def ring_count_def kbd_wf_def KEY_BUF_SIZE_def
      ring_arith_push)

lemma buf_push_list:
  assumes wf: "kbd_wf s" and nf: "\<not> buf_full s"
  shows "ring_list (buf_push e s) = ring_list s @ [e]"
proof (rule nth_equalityI)
  show "length (ring_list (buf_push e s)) = length (ring_list s @ [e])"
    using buf_push_count [OF wf nf] by simp
next
  fix i assume "i < length (ring_list (buf_push e s))"
  then have i: "i < Suc (ring_count s)" using buf_push_count [OF wf nf] by simp
  have h: "key_head s < 32" and t: "key_tail s < 32" and l: "length (key_buf s) = 32"
    using wf by (simp_all add: kbd_wf_def KEY_BUF_SIZE_def)
  have tl: "key_tail (buf_push e s) = key_tail s" using nf by (simp add: buf_push_def)
  have kb: "key_buf (buf_push e s) = (key_buf s)[key_head s := e]"
    using nf by (simp add: buf_push_def)
  show "ring_list (buf_push e s) ! i = (ring_list s @ [e]) ! i"
  proof (cases "i < ring_count s")
    case True
    then have "(key_tail s + i) mod 32 \<noteq> key_head s"
      using h t by (simp add: ring_count_def KEY_BUF_SIZE_def ring_arith_idx_neq)
    then show ?thesis
      using True i buf_push_count [OF wf nf]
      by (simp add: ring_list_def tl kb nth_append KEY_BUF_SIZE_def)
  next
    case False
    then have ieq: "i = ring_count s" using i by simp
    have "(key_tail s + ring_count s) mod 32 = key_head s"
      using h t by (simp add: ring_count_def KEY_BUF_SIZE_def ring_arith_idx_head)
    then show ?thesis
      using i buf_push_count [OF wf nf] h l
      by (simp add: ring_list_def tl kb nth_append KEY_BUF_SIZE_def ieq)
  qed
qed

lemma buf_pop_wf: "kbd_wf s \<Longrightarrow> kbd_wf (snd (buf_pop s))"
  by (simp add: buf_pop_def kbd_wf_def KEY_BUF_SIZE_def)

lemma buf_pop_count:
  assumes "kbd_wf s" "\<not> buf_empty s"
  shows "ring_count (snd (buf_pop s)) = ring_count s - 1" "ring_count s > 0"
  using assms
  by (simp_all add: buf_pop_def buf_empty_def ring_count_def kbd_wf_def KEY_BUF_SIZE_def
      ring_arith_pop)

lemma buf_pop_list:
  assumes wf: "kbd_wf s" and ne: "\<not> buf_empty s"
  shows "ring_list s = fst (buf_pop s) # ring_list (snd (buf_pop s))"
proof (rule nth_equalityI)
  show "length (ring_list s) = length (fst (buf_pop s) # ring_list (snd (buf_pop s)))"
    using buf_pop_count [OF wf ne] by simp
next
  fix i assume "i < length (ring_list s)"
  then have i: "i < ring_count s" by simp
  have t: "key_tail s < 32" using wf by (simp add: kbd_wf_def KEY_BUF_SIZE_def)
  show "ring_list s ! i = (fst (buf_pop s) # ring_list (snd (buf_pop s))) ! i"
  proof (cases i)
    case 0
    then show ?thesis using i t by (simp add: ring_list_def buf_pop_def KEY_BUF_SIZE_def)
  next
    case (Suc j)
    have "(Suc (key_tail s) mod 32 + j) mod 32 = Suc (key_tail s + j) mod 32"
      by (simp add: mod_simps)
    moreover have "j < ring_count (snd (buf_pop s))"
      using i Suc buf_pop_count [OF wf ne] by simp
    ultimately show ?thesis
      using i Suc
      by (simp add: ring_list_def KEY_BUF_SIZE_def) (simp add: buf_pop_def KEY_BUF_SIZE_def)
  qed
qed

section \<open>Keyboard Talk R0\<close>

lemma kbd_process_queue_wf: "kbd_wf s \<Longrightarrow> kbd_wf (kbd_process_queue s q)"
  by (induction q arbitrary: s) (simp_all add: buf_push_wf)

lemma kbd_process_queue_list:
  "kbd_wf s \<Longrightarrow> ring_list (kbd_process_queue s q) = take 31 (ring_list s @ map adb_event q)"
proof (induction q arbitrary: s)
  case Nil
  then show ?case using ring_count_le [of s] by simp
next
  case (Cons e q)
  show ?case
  proof (cases "buf_full s")
    case True
    then have "ring_count s = 31" using Cons.prems by (simp add: buf_full_iff)
    then show ?thesis using True Cons by (simp add: buf_push_full)
  next
    case False
    then show ?thesis
      using Cons.IH [of "buf_push (adb_event e) s"] Cons.prems
      by (simp add: buf_push_wf buf_push_list)
  qed
qed

lemma ring_list_Nil_iff: "kbd_wf s \<Longrightarrow> ring_list s = [] \<longleftrightarrow> buf_empty s"
  by (simp add: buf_empty_iff flip: length_0_conv)

lemma bit_0x80: "bit (0x80 :: u8) n \<longleftrightarrow> n = 7"
proof -
  have "bit (2 ^ 7 :: u8) n \<longleftrightarrow> n = 7"
    by (simp only: bit_exp_iff) (auto simp: possible_bit_word)
  then show ?thesis by simp
qed

lemma and_0x7F: "(w :: u8) AND 0x7F = take_bit 7 w"
proof -
  have "(0x7F :: u8) = mask 7" by (simp add: mask_eq_exp_minus_1)
  then show ?thesis by (simp only: take_bit_eq_mask)
qed

lemma adb_event_format:
  "bit (adb_event e) 7 = released e \<and> take_bit 7 (adb_event e) = take_bit 7 (adb_keycode e)"
proof -
  have "bit (adb_event e) 7 = released e"
    unfolding adb_event_def and_0x7F using bit_0x80 [of 7] by (simp add: bit_simps)
  moreover have "take_bit 7 (adb_event e) = take_bit 7 (adb_keycode e)"
    unfolding adb_event_def and_0x7F
  proof (rule bit_word_eqI)
    fix n
    show "bit (take_bit 7 ((if released e then 0x80 else 0x00) OR take_bit 7 (adb_keycode e))) n
          \<longleftrightarrow> bit (take_bit 7 (adb_keycode e)) n"
      using bit_0x80 [of n] by (auto simp: bit_simps)
  qed
  ultimately show ?thesis by simp
qed

text \<open>
  C3. In every keyboard state with the ring indices in range, Talk R0 drains the queue
  into the ring (the ring then holds at most its 31 oldest events) and empties the
  queue. If the ring is then empty it returns no data; otherwise the high byte is the
  oldest event, the low byte the next one, or \<open>0xFF\<close> when there is none, and both are
  removed from the ring. Each event byte has bit 7 set exactly for a release and the
  low seven bits of the ADB keycode below it.
\<close>

theorem kbd_talk_r0_events:
  assumes "kbd_wf s"
  shows "(case kbd_handle_talk 0 s q of (r, s', q') \<Rightarrow>
           q' = [] \<and> kbd_wf s' \<and>
           (case take 31 (ring_list s @ map adb_event q) of
              [] \<Rightarrow> r = None \<and> ring_list s' = []
            | [high] \<Rightarrow> r = Some (push_bit 8 (ucast high) OR 0xFF) \<and> ring_list s' = []
            | high # low # rest \<Rightarrow>
                r = Some (push_bit 8 (ucast high) OR ucast low) \<and> ring_list s' = rest))
         \<and> (\<forall>e. bit (adb_event e) 7 = released e
                  \<and> take_bit 7 (adb_event e) = take_bit 7 (adb_keycode e))"
proof -
  define s1 where "s1 = kbd_process_queue s q"
  have wf1: "kbd_wf s1" using assms by (simp add: s1_def kbd_process_queue_wf)
  have l1: "take 31 (ring_list s @ map adb_event q) = ring_list s1"
    using assms by (simp add: s1_def kbd_process_queue_list)
  show ?thesis
  proof (cases "buf_empty s1")
    case True
    then have e1: "ring_list s1 = []" using wf1 by (simp add: ring_list_Nil_iff)
    have r: "kbd_handle_talk 0 s q = (None, s1, [])"
      using True by (simp add: kbd_handle_talk_def Let_def flip: s1_def)
    show ?thesis unfolding r l1 using wf1 e1 adb_event_format by simp
  next
    case False
    define s2 where "s2 = snd (buf_pop s1)"
    define key1 where "key1 = fst (buf_pop s1)"
    have p1: "buf_pop s1 = (key1, s2)" by (simp add: s2_def key1_def)
    have wf2: "kbd_wf s2" using wf1 by (simp add: s2_def buf_pop_wf)
    have l2: "ring_list s1 = key1 # ring_list s2"
      using buf_pop_list [OF wf1 False] by (simp add: s2_def key1_def)
    show ?thesis
    proof (cases "buf_empty s2")
      case True
      then have e2: "ring_list s2 = []" using wf2 by (simp add: ring_list_Nil_iff)
      have r: "kbd_handle_talk 0 s q = (Some (push_bit 8 (ucast key1) OR 0xFF), s2, [])"
        using \<open>\<not> buf_empty s1\<close> True p1
        by (simp add: kbd_handle_talk_def Let_def flip: s1_def)
      show ?thesis unfolding r l1 l2 using wf2 e2 adb_event_format by simp
    next
      case ne2: False
      define s3 where "s3 = snd (buf_pop s2)"
      define key2 where "key2 = fst (buf_pop s2)"
      have p2: "buf_pop s2 = (key2, s3)" by (simp add: s3_def key2_def)
      have wf3: "kbd_wf s3" using wf2 by (simp add: s3_def buf_pop_wf)
      have l3: "ring_list s2 = key2 # ring_list s3"
        using buf_pop_list [OF wf2 ne2] by (simp add: s3_def key2_def)
      have r: "kbd_handle_talk 0 s q = (Some (push_bit 8 (ucast key1) OR ucast key2), s3, [])"
        using \<open>\<not> buf_empty s1\<close> ne2 p1 p2
        by (simp add: kbd_handle_talk_def Let_def flip: s1_def)
      show ?thesis unfolding r l1 l2 l3 using wf3 adb_event_format by simp
    qed
  qed
qed

lemma kbd_wf_boot: "kbd_wf kbd_boot"
  by (simp add: kbd_wf_def kbd_boot_def KEY_BUF_SIZE_def)

lemma ring_list_boot: "ring_list kbd_boot = []"
  by (simp add: ring_list_def ring_count_def kbd_boot_def KEY_BUF_SIZE_def)

text \<open>
  At power-on: one queued press of keycode \<open>0x00\<close> gives \<open>0x00FF\<close>, one queued release
  gives \<open>0x80FF\<close>, an empty queue gives no data.
\<close>

theorem kbd_talk_r0_events_witness:
  "kbd_wf kbd_boot
   \<and> fst (kbd_handle_talk 0 kbd_boot [\<lparr>adb_keycode = 0x00, released = False\<rparr>]) = Some 0x00FF
   \<and> fst (kbd_handle_talk 0 kbd_boot [\<lparr>adb_keycode = 0x00, released = True\<rparr>]) = Some 0x80FF
   \<and> fst (kbd_handle_talk 0 kbd_boot []) = None"
  using kbd_talk_r0_events [OF kbd_wf_boot, of "[\<lparr>adb_keycode = 0x00, released = False\<rparr>]"]
    kbd_talk_r0_events [OF kbd_wf_boot, of "[\<lparr>adb_keycode = 0x00, released = True\<rparr>]"]
    kbd_talk_r0_events [OF kbd_wf_boot, of "[]"]
  by (simp add: kbd_wf_boot ring_list_boot adb_event_def split: prod.splits)

text \<open>
  Every state reached from power-on by Talk, Listen, Flush and Reset commands has its
  ring indices in range.
\<close>

lemma kbd_handle_talk_wf: "kbd_wf s \<Longrightarrow> kbd_wf (fst (snd (kbd_handle_talk r s q)))"
  using kbd_process_queue_wf [of s q]
  by (auto simp: kbd_handle_talk_def Let_def kbd_wf_def buf_pop_def KEY_BUF_SIZE_def
      split: prod.splits)

lemma kbd_step_wf: "kbd_wf s \<Longrightarrow> kbd_wf (kbd_step s x)"
  by (cases x)
    (simp_all add: kbd_handle_talk_wf,
     auto simp: kbd_wf_def kbd_handle_listen_def kbd_handle_flush_def kbd_handle_reset_def
       kbd_init_def KEY_BUF_SIZE_def Let_def)

lemma kbd_run_wf: "kbd_wf (foldl kbd_step kbd_boot ops)"
proof -
  have "kbd_wf s \<Longrightarrow> kbd_wf (foldl kbd_step s ops)" for s
    by (induction ops arbitrary: s) (simp_all add: kbd_step_wf)
  then show ?thesis by (simp add: kbd_wf_boot)
qed

section \<open>Capacity of the key ring\<close>

lemma ring_step_wf: "kbd_wf s \<Longrightarrow> kbd_wf (ring_step s x)"
  by (cases x) (simp_all add: buf_push_wf buf_pop_wf)

lemma ring_run_wf: "kbd_wf s \<Longrightarrow> kbd_wf (foldl ring_step s ops)"
  by (induction ops arbitrary: s) (simp_all add: ring_step_wf)

text \<open>
  C8, amended. The ring holds up to 31 packed key events. After every sequence of pushes
  and pops from power-on, the number of stored events is at most 31; a push onto a ring
  holding 31 events is dropped and leaves the state unchanged; a push onto a ring holding
  fewer than 31 events appends the event.
\<close>

theorem key_ring_capacity_31:
  "(let s = foldl ring_step kbd_boot ops in
      ring_count s \<le> 31
      \<and> (ring_count s = 31 \<longrightarrow> buf_push e s = s)
      \<and> (ring_count s < 31 \<longrightarrow>
            ring_list (buf_push e s) = ring_list s @ [e]
            \<and> ring_count (buf_push e s) = ring_count s + 1))"
proof -
  have wf: "kbd_wf (foldl ring_step kbd_boot ops)"
    by (rule ring_run_wf) (rule kbd_wf_boot)
  show ?thesis
    using wf ring_count_le [of "foldl ring_step kbd_boot ops"]
    by (auto simp: Let_def buf_full_iff buf_push_full buf_push_list buf_push_count)
qed


lemma replicate_update_same: "(replicate k x)[i := x] = replicate k x"
  by (cases "i < k") (auto simp: list_eq_iff_nth_eq nth_list_update)

lemma boot_pushes:
  "n \<le> 31 \<Longrightarrow> foldl ring_step kbd_boot (replicate n (Push 0)) = kbd_boot\<lparr>key_head := n\<rparr>"
proof (induction n)
  case 0
  then show ?case by (simp add: kbd_boot_def)
next
  case (Suc n)
  then have "foldl ring_step kbd_boot (replicate n (Push 0)) = kbd_boot\<lparr>key_head := n\<rparr>"
    by simp
  moreover have "buf_push 0 (kbd_boot\<lparr>key_head := n\<rparr>) = kbd_boot\<lparr>key_head := Suc n\<rparr>"
    using Suc.prems
    by (simp add: buf_push_def buf_full_def kbd_boot_def KEY_BUF_SIZE_def replicate_update_same)
  moreover have "replicate (Suc n) (Push 0) = replicate n (Push 0) @ [Push 0]"
    by (simp add: replicate_append_same)
  ultimately show ?case
    by (simp del: replicate_Suc)
qed

lemma boot_31_pushes:
  "foldl ring_step kbd_boot (replicate 31 (Push 0)) = kbd_boot\<lparr>key_head := 31\<rparr>"
  by (rule boot_pushes) simp

text \<open>
  C8, as stated, after 31 pushes from power-on: the ring holds 31 events, fewer than 32,
  and the next push is dropped.
\<close>

theorem key_ring_32nd_push_counterexample:
  "ring_count (foldl ring_step kbd_boot (replicate 31 (Push 0))) = 31
   \<and> buf_push 0x41 (foldl ring_step kbd_boot (replicate 31 (Push 0)))
       = foldl ring_step kbd_boot (replicate 31 (Push 0))"
  unfolding boot_31_pushes
  by (simp add: ring_count_def buf_push_def buf_full_def kbd_boot_def KEY_BUF_SIZE_def)


text \<open>
  Both cases on concrete rings: the full ring after 31 pushes, and the empty ring after
  one push and one pop.
\<close>

theorem key_ring_capacity_31_witness:
  "ring_count (foldl ring_step kbd_boot (replicate 31 (Push 0))) = 31
   \<and> buf_push 0x41 (foldl ring_step kbd_boot (replicate 31 (Push 0)))
       = foldl ring_step kbd_boot (replicate 31 (Push 0))
   \<and> ring_count (foldl ring_step kbd_boot [Push 0x10, Pop]) < 31
   \<and> ring_list (buf_push 0x41 (foldl ring_step kbd_boot [Push 0x10, Pop])) = [0x41]"
proof -
  have c: "ring_count (kbd_boot\<lparr>key_head := 31\<rparr>) = 31"
    by (simp add: ring_count_def kbd_boot_def KEY_BUF_SIZE_def)
  have s2: "foldl ring_step kbd_boot [Push 0x10, Pop]
            = kbd_boot\<lparr>key_buf := (replicate 32 0)[0 := 0x10], key_head := 1, key_tail := 1\<rparr>"
    by (simp add: buf_push_def buf_pop_def buf_full_def kbd_boot_def KEY_BUF_SIZE_def)
  have c2: "ring_count (foldl ring_step kbd_boot [Push 0x10, Pop]) = 0"
    unfolding s2 by (simp add: ring_count_def kbd_boot_def KEY_BUF_SIZE_def)
  have l2: "ring_list (foldl ring_step kbd_boot [Push 0x10, Pop]) = []"
    using c2 by (simp add: ring_list_def)
  show ?thesis
    using key_ring_capacity_31 [of "replicate 31 (Push 0)" "0x41"]
      key_ring_capacity_31 [of "[Push 0x10, Pop]" "0x41"]
    unfolding boot_31_pushes Let_def c c2 l2 by simp
qed

section \<open>The return value of wait_for_state\<close>

lemma wait_loop_refines:
  "wait_loop target timeout_us start ps cs
   = map_option (\<lambda>(r, h'). (case r of None \<Rightarrow> 0 | Some elapsed \<Rightarrow> elapsed, h'))
       (wait_outcome_loop target timeout_us start ps cs)"
  by (induction target timeout_us start ps cs rule: wait_loop.induct) (auto simp: Let_def)

text \<open>
  \<open>wait_for_state\<close> returns the specified outcome with the two kinds of outcome merged
  into one number: the elapsed time when the line reaches the target, 0 on time-out.
  A return value other than 0 is always a success carrying the elapsed time.
\<close>

lemma wait_for_state_return_value:
  "wait_for_state target timeout_us h
   = map_option (\<lambda>(r, h'). (case r of None \<Rightarrow> 0 | Some elapsed \<Rightarrow> elapsed, h'))
       (wait_for_state_spec target timeout_us h)
   \<and> (\<forall>r h'. wait_for_state target timeout_us h = Some (r, h') \<and> r \<noteq> 0
         \<longrightarrow> wait_for_state_spec target timeout_us h = Some (Some r, h'))"
proof (intro conjI allI impI)
  show 1: "wait_for_state target timeout_us h
   = map_option (\<lambda>(r, h'). (case r of None \<Rightarrow> 0 | Some elapsed \<Rightarrow> elapsed, h'))
       (wait_for_state_spec target timeout_us h)"
    by (simp add: wait_for_state_def wait_for_state_spec_def wait_loop_refines split: list.splits)
  fix r h'
  assume a: "wait_for_state target timeout_us h = Some (r, h') \<and> r \<noteq> 0"
  then obtain x where x: "wait_for_state_spec target timeout_us h = Some x"
    and r: "(r, h') = (case x of (r, h') \<Rightarrow> (case r of None \<Rightarrow> 0 | Some elapsed \<Rightarrow> elapsed, h'))"
    unfolding 1 by (cases "wait_for_state_spec target timeout_us h") auto
  obtain out h2 where xp: "x = (out, h2)" by (cases x)
  from r xp a have "out = Some r \<and> h2 = h'"
    by (cases out) auto
  with x xp show "wait_for_state_spec target timeout_us h = Some (Some r, h')"
    by simp
qed

text \<open>
  The line is high at the first sample and low at the second, 30 microseconds after the
  start: the call returns 30, the specified outcome is success with 30.
\<close>

lemma wait_for_state_after_30us:
  "wait_for_state False 200 ([True, False], [1000, 1010, 1030]) = Some (30, ([], []))
   \<and> wait_for_state_spec False 200 ([True, False], [1000, 1010, 1030]) = Some (Some 30, ([], []))"
  by (simp add: wait_for_state_def wait_for_state_spec_def)

text \<open>
  C10. The claim is that a success of \<open>wait_for_state\<close> can be told from a time-out,
  and that a call made while the line is already in the target state is a success. A
  call for the low state made while the line is already low, with the clock reading the
  same microsecond at both reads, returns 0; a call that times out after 200
  microseconds returns 0 as well. The specified outcomes differ (success with 0
  elapsed, time-out), the return values do not, and \<open>receive_bit\<close> reads the first as
  a time-out and returns \<open>-1\<close>.
\<close>

theorem wait_for_state_already_low:
  "wait_for_state False 200 ([False], [1000, 1000]) = Some (0, ([], []))
   \<and> wait_for_state False 200 ([True], [1000, 1200]) = Some (0, ([], []))
   \<and> wait_for_state_spec False 200 ([False], [1000, 1000]) = Some (Some 0, ([], []))
   \<and> wait_for_state_spec False 200 ([True], [1000, 1200]) = Some (None, ([], []))
   \<and> receive_bit ([False], [1000, 1000]) = Some (None, ([], []))"
proof -
  have c1: "wait_for_state False 200 ([False], [1000, 1000]) = Some (0, ([], []))"
    by (simp add: wait_for_state_def)
  have c2: "wait_for_state False 200 ([True], [1000, 1200]) = Some (0, ([], []))"
    by (simp add: wait_for_state_def)
  have c3: "wait_for_state_spec False 200 ([False], [1000, 1000]) = Some (Some 0, ([], []))"
    by (simp add: wait_for_state_spec_def)
  have c4: "wait_for_state_spec False 200 ([True], [1000, 1200]) = Some (None, ([], []))"
    by (simp add: wait_for_state_spec_def)
  have k: "ADB_BIT_CELL_US * 2 = 200"
    by (simp add: ADB_BIT_CELL_US_def)
  have c5: "receive_bit ([False], [1000, 1000]) = Some (None, ([], []))"
    by (simp only: receive_bit_def k c1 option.case prod.case if_True refl)
  show ?thesis
    by (intro conjI c1 c2 c3 c4 c5)
qed

section \<open>Service requests\<close>

lemma handle_command_srq:
  "srq (snd (handle_command cmd listen_wait bits b)) =
     (let is_kbd = (address cmd = kbd_address (kbd b));
          is_mouse = (address cmd = mouse_address (mouse b))
      in if \<not> is_kbd \<and> \<not> is_mouse
         then kbd_has_data (kbd b) (kbd_queue b) \<or> mouse_has_data (mouse b) (mouse_queue b)
         else if is_kbd then mouse_has_data (mouse b) (mouse_queue b)
         else kbd_has_data (kbd b) (kbd_queue b))"
  by (simp add: handle_command_def Let_def kbd_current_address_def mouse_current_address_def
      split: prod.splits option.splits)

text \<open>
  C5. For every command given to \<open>handle_command\<close>: if its address is that of neither
  emulated device, SRQ is asserted during the stop bit exactly when the keyboard or the
  mouse has pending data; if it is the address of the keyboard only, exactly when the
  mouse has pending data; if it is the address of the mouse only, exactly when the
  keyboard has pending data.
\<close>

theorem srq_arbitration:
  "(address cmd \<noteq> kbd_address (kbd b) \<and> address cmd \<noteq> mouse_address (mouse b) \<longrightarrow>
      srq (snd (handle_command cmd listen_wait bits b))
      = (kbd_has_data (kbd b) (kbd_queue b) \<or> mouse_has_data (mouse b) (mouse_queue b)))
   \<and> (address cmd = kbd_address (kbd b) \<and> address cmd \<noteq> mouse_address (mouse b) \<longrightarrow>
      srq (snd (handle_command cmd listen_wait bits b))
      = mouse_has_data (mouse b) (mouse_queue b))
   \<and> (address cmd = mouse_address (mouse b) \<and> address cmd \<noteq> kbd_address (kbd b) \<longrightarrow>
      srq (snd (handle_command cmd listen_wait bits b))
      = kbd_has_data (kbd b) (kbd_queue b))"
  by (simp add: handle_command_srq Let_def)


text \<open>
  One key press is queued and the mouse is idle. A Talk R0 to the mouse (address 3)
  asserts SRQ and sends nothing; a Talk R0 to the keyboard (address 2) does not assert
  SRQ and sends \<open>0x00FF\<close>; a Talk to address 7 asserts SRQ.
\<close>

theorem srq_arbitration_witness:
  "srq (snd (handle_command \<lparr>address = 3, command = 3, reg = 0, valid = True\<rparr> 0 [] s6_bridge))
   \<and> response (snd (handle_command \<lparr>address = 3, command = 3, reg = 0, valid = True\<rparr> 0 []
         s6_bridge)) = None
   \<and> \<not> srq (snd (handle_command \<lparr>address = 2, command = 3, reg = 0, valid = True\<rparr> 0 []
         s6_bridge))
   \<and> response (snd (handle_command \<lparr>address = 2, command = 3, reg = 0, valid = True\<rparr> 0 []
         s6_bridge)) = Some 0x00FF
   \<and> srq (snd (handle_command \<lparr>address = 7, command = 3, reg = 0, valid = True\<rparr> 0 [] s6_bridge))"
proof -
  have a: "kbd_address (kbd s6_bridge) = 2" "mouse_address (mouse s6_bridge) = 3"
    by (simp_all add: s6_bridge_def bridge_boot_def kbd_boot_def mouse_boot_def config_defs)
  have k: "kbd_has_data (kbd s6_bridge) (kbd_queue s6_bridge)"
    by (simp add: s6_bridge_def kbd_has_data_def kbd_pending_def)
  have m: "\<not> mouse_has_data (mouse s6_bridge) (mouse_queue s6_bridge)"
    by (simp add: s6_bridge_def bridge_boot_def mouse_has_data_def mouse_pending_def
        mouse_boot_def)
  have r3: "response (snd (handle_command \<lparr>address = 3, command = 3, reg = 0, valid = True\<rparr> 0 []
         s6_bridge)) = None"
    by (simp add: handle_command_def s6_bridge_def bridge_boot_def kbd_boot_def mouse_boot_def
        config_defs kbd_current_address_def mouse_current_address_def mouse_handle_talk_def
        Let_def)
  have r2: "response (snd (handle_command \<lparr>address = 2, command = 3, reg = 0, valid = True\<rparr> 0 []
         s6_bridge)) = Some 0x00FF"
    by (simp add: handle_command_def s6_bridge_def bridge_boot_def kbd_boot_def mouse_boot_def
        config_defs kbd_current_address_def mouse_current_address_def kbd_handle_talk_def
        buf_push_def buf_full_def buf_empty_def buf_pop_def adb_event_def KEY_BUF_SIZE_def
        Let_def)
  show ?thesis
    using srq_arbitration [of "\<lparr>address = 3, command = 3, reg = 0, valid = True\<rparr>" s6_bridge 0 "[]"]
      srq_arbitration [of "\<lparr>address = 2, command = 3, reg = 0, valid = True\<rparr>" s6_bridge 0 "[]"]
      srq_arbitration [of "\<lparr>address = 7, command = 3, reg = 0, valid = True\<rparr>" s6_bridge 0 "[]"]
    by (simp add: a k m r2 r3)
qed

section \<open>Dropped Listen frames\<close>

text \<open>
  \<open>receive_data\<close> fails exactly when the start bit is not a 1 or one of the sixteen data
  bits times out.
\<close>

lemma bit_at_Cons_Suc [simp]: "bit_at (x # bits) (Suc i) = bit_at bits i"
  by (simp add: bit_at_def)

lemma bit_at_Cons_0 [simp]: "bit_at (x # bits) 0 = x"
  by (simp add: bit_at_def)

lemma bit_at_Nil [simp]: "bit_at [] i = None"
  by (simp add: bit_at_def)

lemma next_bit_eq: "next_bit bits = (bit_at bits 0, tl bits)"
  by (cases bits) simp_all

lemma bit_at_tl: "bit_at (tl bits) i = bit_at bits (Suc i)"
  by (cases bits) simp_all

lemma receive_bits_None_iff:
  "fst (receive_bits n acc bits) = None \<longleftrightarrow> (\<exists>i<n. bit_at bits i = None)"
proof (induction n arbitrary: acc bits)
  case 0
  then show ?case by simp
next
  case (Suc n)
  show ?case
  proof (cases "bit_at bits 0")
    case None
    then show ?thesis by (auto simp: next_bit_eq)
  next
    case (Some v)
    have "(\<exists>i<Suc n. bit_at bits i = None) \<longleftrightarrow> (\<exists>i<n. bit_at (tl bits) i = None)"
      using Some by (auto simp: bit_at_tl less_Suc_eq_0_disj)
    then show ?thesis
      using Some Suc.IH by (simp add: next_bit_eq)
  qed
qed

lemma receive_data_None_iff:
  "fst (receive_data bits) = None
   \<longleftrightarrow> bit_at bits 0 \<noteq> Some True \<or> (\<exists>i. 1 \<le> i \<and> i \<le> 16 \<and> bit_at bits i = None)"
proof -
  have "(\<exists>i<16. bit_at (tl bits) i = None) \<longleftrightarrow> (\<exists>i. 1 \<le> i \<and> i \<le> 16 \<and> bit_at bits i = None)"
  proof
    assume "\<exists>i<16. bit_at (tl bits) i = None"
    then obtain i where "i < 16" "bit_at bits (Suc i) = None" by (auto simp: bit_at_tl)
    then show "\<exists>i. 1 \<le> i \<and> i \<le> 16 \<and> bit_at bits i = None"
      by (intro exI [of _ "Suc i"]) simp
  next
    assume "\<exists>i. 1 \<le> i \<and> i \<le> 16 \<and> bit_at bits i = None"
    then obtain i where i: "1 \<le> i" "i \<le> 16" "bit_at bits i = None" by blast
    then obtain j where "i = Suc j" by (cases i) auto
    with i show "\<exists>i<16. bit_at (tl bits) i = None"
      by (intro exI [of _ j]) (simp add: bit_at_tl)
  qed
  moreover have "fst (receive_data bits) = None
    \<longleftrightarrow> bit_at bits 0 \<noteq> Some True \<or> fst (receive_bits 16 (0 :: u16) (tl bits)) = None"
    by (auto simp: receive_data_def next_bit_eq split: prod.splits option.splits)
  ultimately show ?thesis
    by (simp add: receive_bits_None_iff)
qed

text \<open>
  C6, amended. For every Listen command whose payload never starts (\<open>wait_for_state\<close>
  returns 0), or whose start bit times out or decodes as other than 1, or one of whose
  sixteen data bits times out, the frame is dropped: both device state blocks and both
  queues are as they were before the dispatch, and nothing is sent.
\<close>

theorem listen_dropped_frame:
  assumes "command cmd = ADB_CMD_LISTEN"
    and "listen_wait = 0 \<or> bit_at bits 0 \<noteq> Some True
         \<or> (\<exists>i. 1 \<le> i \<and> i \<le> 16 \<and> bit_at bits i = None)"
  shows "kbd (fst (handle_command cmd listen_wait bits b)) = kbd b
         \<and> mouse (fst (handle_command cmd listen_wait bits b)) = mouse b
         \<and> kbd_queue (fst (handle_command cmd listen_wait bits b)) = kbd_queue b
         \<and> mouse_queue (fst (handle_command cmd listen_wait bits b)) = mouse_queue b
         \<and> response (snd (handle_command cmd listen_wait bits b)) = None"
proof -
  have "listen_wait = 0 \<or> fst (receive_data bits) = None"
    using assms(2) by (simp add: receive_data_None_iff)
  then show ?thesis
    using assms(1)
    by (auto simp: handle_command_def Let_def config_defs)
qed


lemma receive_data_frame_0x0600_no_stop:
  "receive_data frame_0x0600_no_stop = (Some 0x0600, [])"
  by code_simp

lemma receive_data_frame_0x0600:
  "receive_data frame_0x0600 = (Some 0x0600, [])"
  by code_simp

text \<open>
  C6, as stated, with a bit reception that times out: Listen R3 to the keyboard with the
  payload \<open>0x0600\<close> whose stop bit (bit 17 of the frame) times out. The frame is not
  dropped: the keyboard address changes from 2 to 6.
\<close>

theorem listen_stop_bit_timeout_counterexample:
  "bit_at frame_0x0600_no_stop 17 = None
   \<and> kbd_address (kbd bridge_boot) = 2
   \<and> kbd_address (kbd (fst (handle_command listen_kbd_r3 100 frame_0x0600_no_stop bridge_boot))) = 6"
proof -
  have 1: "bit_at frame_0x0600_no_stop 17 = None"
    by (simp add: bit_at_def frame_0x0600_no_stop_def bits_0x0600_def)
  have 2: "kbd_address (kbd bridge_boot) = 2"
    by (simp add: bridge_boot_def kbd_boot_def config_defs)
  have 3: "kbd_address (kbd (fst (handle_command listen_kbd_r3 100 frame_0x0600_no_stop
             bridge_boot))) = 6"
    by (simp add: handle_command_def receive_data_frame_0x0600_no_stop listen_kbd_r3_def
        bridge_boot_def kbd_boot_def mouse_boot_def config_defs kbd_current_address_def
        mouse_current_address_def kbd_handle_listen_def Let_def)
  show ?thesis by (intro conjI 1 2 3)
qed


text \<open>
  Three dropped frames at power-on: a start bit that reads 0, a payload that stops after
  five data bits, and a payload that never starts.
\<close>

theorem listen_dropped_frame_witness:
  "command listen_kbd_r3 = ADB_CMD_LISTEN
   \<and> bit_at frame_bad_start 0 \<noteq> Some True
   \<and> kbd (fst (handle_command listen_kbd_r3 100 frame_bad_start bridge_boot)) = kbd bridge_boot
   \<and> mouse (fst (handle_command listen_kbd_r3 100 frame_bad_start bridge_boot))
       = mouse bridge_boot
   \<and> bit_at frame_short 6 = None
   \<and> kbd (fst (handle_command listen_kbd_r3 100 frame_short bridge_boot)) = kbd bridge_boot
   \<and> kbd (fst (handle_command listen_kbd_r3 0 frame_0x0600 bridge_boot)) = kbd bridge_boot"
proof -
  have c: "command listen_kbd_r3 = ADB_CMD_LISTEN"
    by (simp add: listen_kbd_r3_def config_defs)
  have b0: "bit_at frame_bad_start 0 \<noteq> Some True"
    by (simp add: frame_bad_start_def)
  have b6: "bit_at frame_short 6 = None"
    by (simp add: bit_at_def frame_short_def bits_0x0600_def)
  have h6: "\<exists>i. 1 \<le> i \<and> i \<le> 16 \<and> bit_at frame_short i = None"
    using b6 by (intro exI [of _ 6]) simp
  show ?thesis
    using listen_dropped_frame [OF c, of 100 frame_bad_start bridge_boot]
      listen_dropped_frame [OF c, of 100 frame_short bridge_boot]
      listen_dropped_frame [OF c, of 0 frame_0x0600 bridge_boot]
      c b0 b6 h6
    by simp
qed

section \<open>Attention pulses in the main loop\<close>

lemma ring_list_reset: "ring_list (kbd_handle_reset k) = []"
  by (simp add: ring_list_def ring_count_def kbd_handle_reset_def kbd_init_def KEY_BUF_SIZE_def)

text \<open>
  C4. For every measured low-pulse duration \<open>d\<close>. If \<open>560 \<le> d \<le> 1040\<close> the loop
  processes a command frame: with a non-zero sync time and a command byte received it
  dispatches the decoded command to \<open>handle_command\<close>, and with a zero sync time or a
  command bit that times out it abandons the frame and changes nothing. If
  \<open>d \<ge> 2800\<close> both emulators are at their defaults afterwards: addresses 2 and 3,
  handlers 2, empty ring, \<open>register2 = 0xFFFF\<close>, zero accumulators, button flags clear.
  For every other \<open>d\<close> nothing changes.
\<close>

theorem bus_loop_pulse_classes:
  "(560 \<le> d \<and> d \<le> 1040 \<longrightarrow>
      (sync = 0 \<or> fst (receive_byte bits) = None \<longrightarrow>
         bus_loop_pulse d sync listen_wait bits b = (b, bus_idle))
      \<and> (\<forall>byte rest. sync \<noteq> 0 \<and> receive_byte bits = (Some byte, rest) \<longrightarrow>
            bus_loop_pulse d sync listen_wait bits b
            = handle_command
                \<lparr>address = drop_bit 4 byte AND 0x0F, command = drop_bit 2 byte AND 0x03,
                 reg = byte AND 0x03, valid = True\<rparr> listen_wait rest b))
   \<and> (2800 \<le> d \<longrightarrow>
        (let b' = fst (bus_loop_pulse d sync listen_wait bits b) in
           kbd_address (kbd b') = 2 \<and> kbd_handler (kbd b') = 2
           \<and> key_head (kbd b') = 0 \<and> key_tail (kbd b') = 0 \<and> ring_list (kbd b') = []
           \<and> register2 (kbd b') = 0xFFFF
           \<and> mouse_address (mouse b') = 3 \<and> mouse_handler (mouse b') = 2
           \<and> accum_dx (mouse b') = 0 \<and> accum_dy (mouse b') = 0
           \<and> button_pressed (mouse b') = False \<and> button_changed (mouse b') = False))
   \<and> (d < 560 \<or> (1040 < d \<and> d < 2800) \<longrightarrow>
        bus_loop_pulse d sync listen_wait bits b = (b, bus_idle))"
proof (intro conjI impI allI)
  assume d: "560 \<le> d \<and> d \<le> 1040"
  then have nr: "\<not> 2800 \<le> d"
    by (simp add: word_le_nat_alt)
  {
    assume "sync = 0 \<or> fst (receive_byte bits) = None"
    then show "bus_loop_pulse d sync listen_wait bits b = (b, bus_idle)"
      using d nr
      by (auto simp: bus_loop_pulse_def receive_command_def config_defs word_greater_zero_iff
          split: prod.splits option.splits)
  }
  {
    fix byte rest
    assume "sync \<noteq> 0 \<and> receive_byte bits = (Some byte, rest)"
    then show "bus_loop_pulse d sync listen_wait bits b
            = handle_command
                \<lparr>address = drop_bit 4 byte AND 0x0F, command = drop_bit 2 byte AND 0x03,
                 reg = byte AND 0x03, valid = True\<rparr> listen_wait rest b"
      using d nr
      by (simp add: bus_loop_pulse_def receive_command_def config_defs word_greater_zero_iff)
  }
next
  assume "2800 \<le> d"
  then show "let b' = fst (bus_loop_pulse d sync listen_wait bits b) in
           kbd_address (kbd b') = 2 \<and> kbd_handler (kbd b') = 2
           \<and> key_head (kbd b') = 0 \<and> key_tail (kbd b') = 0 \<and> ring_list (kbd b') = []
           \<and> register2 (kbd b') = 0xFFFF
           \<and> mouse_address (mouse b') = 3 \<and> mouse_handler (mouse b') = 2
           \<and> accum_dx (mouse b') = 0 \<and> accum_dy (mouse b') = 0
           \<and> button_pressed (mouse b') = False \<and> button_changed (mouse b') = False"
    by (simp add: bus_loop_pulse_def ADB_RESET_MIN_US_def ring_list_reset Let_def)
      (simp add: kbd_handle_reset_def kbd_init_def mouse_handle_reset_def mouse_init_def
        config_defs)
next
  assume h: "d < 560 \<or> (1040 < d \<and> d < 2800)"
  then have nr: "\<not> 2800 \<le> d"
    by (auto simp: word_le_nat_alt word_less_nat_alt)
  from h show "bus_loop_pulse d sync listen_wait bits b = (b, bus_idle)"
  proof (elim disjE conjE)
    assume "d < 560"
    then have "\<not> 560 \<le> d" by (simp add: not_le)
    then show ?thesis using nr by (simp add: bus_loop_pulse_def config_defs)
  next
    assume "1040 < d"
    then have "\<not> d \<le> 1040" by (simp add: not_le)
    then show ?thesis using nr by (simp add: bus_loop_pulse_def config_defs)
  qed
qed


lemma receive_byte_talk_kbd_r0: "receive_byte talk_kbd_r0_bits = (Some 0x2C, [])"
  by code_simp

text \<open>
  An 800 microsecond pulse followed by the command byte of Talk R0 to the keyboard, with
  one key press queued, is dispatched (poll count 1, response \<open>0x00FF\<close>); the same with
  a zero sync time is abandoned. A 3000 microsecond pulse brings a keyboard at address 6
  and a mouse at address 9 with a residual back to the defaults. Pulses of 300 and of
  2000 microseconds change nothing.
\<close>

theorem bus_loop_pulse_classes_witness:
  "(560 :: u32) \<le> 800 \<and> (800 :: u32) \<le> 1040 \<and> (65 :: u32) \<noteq> 0
   \<and> receive_byte talk_kbd_r0_bits = (Some 0x2C, [])
   \<and> response (snd (bus_loop_pulse 800 65 0 talk_kbd_r0_bits s6_bridge)) = Some 0x00FF
   \<and> poll_count (fst (bus_loop_pulse 800 65 0 talk_kbd_r0_bits s6_bridge)) = 1
   \<and> bus_loop_pulse 800 0 0 talk_kbd_r0_bits s6_bridge = (s6_bridge, bus_idle)
   \<and> (2800 :: u32) \<le> 3000
   \<and> kbd_address (kbd enumerated_bridge) = 6
   \<and> kbd_address (kbd (fst (bus_loop_pulse 3000 65 0 [] enumerated_bridge))) = 2
   \<and> mouse_address (mouse (fst (bus_loop_pulse 3000 65 0 [] enumerated_bridge))) = 3
   \<and> ring_list (kbd (fst (bus_loop_pulse 3000 65 0 [] enumerated_bridge))) = []
   \<and> accum_dx (mouse (fst (bus_loop_pulse 3000 65 0 [] enumerated_bridge))) = 0
   \<and> (300 :: u32) < 560
   \<and> bus_loop_pulse 300 65 0 talk_kbd_r0_bits enumerated_bridge = (enumerated_bridge, bus_idle)
   \<and> (1040 :: u32) < 2000 \<and> (2000 :: u32) < 2800
   \<and> bus_loop_pulse 2000 65 0 talk_kbd_r0_bits enumerated_bridge = (enumerated_bridge, bus_idle)"
proof -
  have hc: "handle_command
              \<lparr>address = drop_bit 4 (0x2C :: u8) AND 0x0F, command = drop_bit 2 0x2C AND 0x03,
               reg = 0x2C AND 0x03, valid = True\<rparr> 0 [] s6_bridge
            = handle_command \<lparr>address = 2, command = 3, reg = 0, valid = True\<rparr> 0 [] s6_bridge"
    by simp
  have r: "response (snd (handle_command \<lparr>address = 2, command = 3, reg = 0, valid = True\<rparr> 0 []
         s6_bridge)) = Some 0x00FF"
    by (simp add: handle_command_def s6_bridge_def bridge_boot_def kbd_boot_def mouse_boot_def
        config_defs kbd_current_address_def mouse_current_address_def kbd_handle_talk_def
        buf_push_def buf_full_def buf_empty_def buf_pop_def adb_event_def KEY_BUF_SIZE_def
        Let_def)
  have p: "poll_count (fst (handle_command \<lparr>address = 2, command = 3, reg = 0, valid = True\<rparr>
         0 [] s6_bridge)) = 1"
    by (simp add: handle_command_def s6_bridge_def bridge_boot_def kbd_boot_def mouse_boot_def
        config_defs kbd_current_address_def mouse_current_address_def kbd_handle_talk_def
        buf_push_def buf_full_def buf_empty_def buf_pop_def adb_event_def KEY_BUF_SIZE_def
        Let_def)
  have e: "kbd_address (kbd enumerated_bridge) = 6"
    by (simp add: enumerated_bridge_def)
  show ?thesis
    using bus_loop_pulse_classes [of 800 65 talk_kbd_r0_bits 0 s6_bridge]
      bus_loop_pulse_classes [of 800 0 talk_kbd_r0_bits 0 s6_bridge]
      bus_loop_pulse_classes [of 3000 65 "[]" 0 enumerated_bridge]
      bus_loop_pulse_classes [of 300 65 talk_kbd_r0_bits 0 enumerated_bridge]
      bus_loop_pulse_classes [of 2000 65 talk_kbd_r0_bits 0 enumerated_bridge]
    by (simp add: receive_byte_talk_kbd_r0 r p e Let_def)
qed

section \<open>Keyboard report parsing\<close>

lemma map_filter_concat:
  "map f (filter P xs) = concat (map (\<lambda>x. if P x then [f x] else []) xs)"
  by (induction xs) simp_all

lemma upt_0_8: "[0..<8] = [0, 1, 2, 3, 4, 5, 6, 7 :: nat]"
  by (simp add: upt_rec)

lemma and_bit_u8:
  fixes w :: u8
  shows "w AND 0x01 = 0 \<longleftrightarrow> \<not> bit w 0" "w AND 0x02 = 0 \<longleftrightarrow> \<not> bit w 1"
    "w AND 0x04 = 0 \<longleftrightarrow> \<not> bit w 2" "w AND 0x08 = 0 \<longleftrightarrow> \<not> bit w 3"
    "w AND 0x10 = 0 \<longleftrightarrow> \<not> bit w 4" "w AND 0x20 = 0 \<longleftrightarrow> \<not> bit w 5"
    "w AND 0x40 = 0 \<longleftrightarrow> \<not> bit w 6" "w AND 0x80 = 0 \<longleftrightarrow> \<not> bit w 7"
  using and_exp_eq_0_iff_not_bit [of w 0] and_exp_eq_0_iff_not_bit [of w 1]
    and_exp_eq_0_iff_not_bit [of w 2] and_exp_eq_0_iff_not_bit [of w 3]
    and_exp_eq_0_iff_not_bit [of w 4] and_exp_eq_0_iff_not_bit [of w 5]
    and_exp_eq_0_iff_not_bit [of w 6] and_exp_eq_0_iff_not_bit [of w 7]
  by simp_all

lemma modifier_events_bits:
  "modifier_events m md MODIFIER_MAP
   = map (\<lambda>i. \<lparr>adb_keycode = [0x36, 0x38, 0x3A, 0x37, 0x7D, 0x7B, 0x7C, 0x37] ! i,
                released = (\<not> bit m i)\<rparr>)
       (filter (bit md) [0..<8])"
  by (simp add: MODIFIER_MAP_def upt_0_8 and_bit_u8)

lemma map_nth_upt_take_drop:
  assumes "j \<le> length xs"
  shows "map ((!) xs) [i..<j] = take (j - i) (drop i xs)"
proof (rule nth_equalityI)
  show "length (map ((!) xs) [i..<j]) = length (take (j - i) (drop i xs))"
    using assms by simp
next
  fix k assume "k < length (map ((!) xs) [i..<j])"
  then have "k < j - i" by simp
  then show "map ((!) xs) [i..<j] ! k = take (j - i) (drop i xs) ! k"
    using assms by simp
qed

lemma report_keys_nth:
  assumes "8 \<le> length data"
  shows "map ((!) data) [2..<8] = take 6 (drop 2 data)"
  using map_nth_upt_take_drop [OF assms, of 2] by simp

lemma still_pressed_iff:
  assumes "8 \<le> length data"
  shows "still_pressed data k \<longleftrightarrow> k \<in> set (take 6 (drop 2 data))"
proof -
  have "still_pressed data k \<longleftrightarrow> k \<in> set (map ((!) data) [2..<8])"
    using assms by (auto simp: still_pressed_def list_ex_iff min_def)
  then show ?thesis using assms by (simp only: report_keys_nth)
qed

lemma was_pressed_iff:
  assumes "length pk = 6"
  shows "was_pressed pk k \<longleftrightarrow> k \<in> set pk"
proof -
  have "was_pressed pk k \<longleftrightarrow> k \<in> set (map ((!) pk) [0..<length pk])"
    using assms by (auto simp: was_pressed_def list_ex_iff)
  then show ?thesis by (simp only: map_nth)
qed

lemma release_events_filter:
  assumes "8 \<le> length data" "length pk = 6"
  shows "release_events usb_to_adb pk data
   = map (\<lambda>k. \<lparr>adb_keycode = usb_to_adb k, released = True\<rparr>)
       (filter (\<lambda>k. k \<noteq> 0 \<and> k \<notin> set (take 6 (drop 2 data)) \<and> usb_to_adb k \<noteq> 0xFF) pk)"
proof -
  have "release_events usb_to_adb pk data
    = concat (map ((\<lambda>k. if k \<noteq> 0 \<and> k \<notin> set (take 6 (drop 2 data)) \<and> usb_to_adb k \<noteq> 0xFF
                         then [\<lparr>adb_keycode = usb_to_adb k, released = True\<rparr>] else [])
                   \<circ> (!) pk) [0..<length pk])"
    unfolding release_events_def Let_def ADB_KEY_NONE_def comp_def
    using assms by (intro arg_cong [where f = concat] map_cong) (auto simp: still_pressed_iff)
  also have "\<dots> = concat (map (\<lambda>k. if k \<noteq> 0 \<and> k \<notin> set (take 6 (drop 2 data))
                                       \<and> usb_to_adb k \<noteq> 0xFF
                         then [\<lparr>adb_keycode = usb_to_adb k, released = True\<rparr>] else []) pk)"
    by (simp only: map_map [symmetric] map_nth)
  finally show ?thesis by (simp add: map_filter_concat)
qed

lemma press_events_filter:
  assumes "8 \<le> length data" "length pk = 6"
  shows "press_events usb_to_adb pk data
   = map (\<lambda>k. \<lparr>adb_keycode = usb_to_adb k, released = False\<rparr>)
       (filter (\<lambda>k. k \<noteq> 0 \<and> k \<notin> set pk \<and> usb_to_adb k \<noteq> 0xFF) (take 6 (drop 2 data)))"
proof -
  have "press_events usb_to_adb pk data
    = concat (map ((\<lambda>k. if k \<noteq> 0 \<and> k \<notin> set pk \<and> usb_to_adb k \<noteq> 0xFF
                         then [\<lparr>adb_keycode = usb_to_adb k, released = False\<rparr>] else [])
                   \<circ> (!) data) [2..<8])"
    unfolding press_events_def Let_def ADB_KEY_NONE_def comp_def
    using assms
    by (intro arg_cong [where f = concat] map_cong) (auto simp: was_pressed_iff min_def)
  also have "\<dots> = concat (map (\<lambda>k. if k \<noteq> 0 \<and> k \<notin> set pk \<and> usb_to_adb k \<noteq> 0xFF
                         then [\<lparr>adb_keycode = usb_to_adb k, released = False\<rparr>] else [])
                   (take 6 (drop 2 data)))"
    using assms(1) by (simp only: map_map [symmetric] report_keys_nth)
  finally show ?thesis by (simp add: map_filter_concat)
qed


lemma saved_keys:
  assumes "8 \<le> length data"
  shows "map (\<lambda>i. if i + 2 < length data then data ! (i + 2) else 0) [0..<6]
         = take 6 (drop 2 data)"
proof (rule nth_equalityI)
  show "length (map (\<lambda>i. if i + 2 < length data then data ! (i + 2) else 0) [0..<6])
        = length (take 6 (drop 2 data))"
    using assms by simp
next
  fix k assume "k < length (map (\<lambda>i. if i + 2 < length data then data ! (i + 2) else 0) [0..<6])"
  then have k: "k < 6" by simp
  then have "map (\<lambda>i. if i + 2 < length data then data ! (i + 2) else 0) [0..<6] ! k
             = data ! (k + 2)"
    using assms by (simp del: upt_Suc add: nth_upt)
  then show "map (\<lambda>i. if i + 2 < length data then data ! (i + 2) else 0) [0..<6] ! k
             = take 6 (drop 2 data) ! k"
    using assms k by (simp add: add.commute)
qed

lemma xor_eq_0_iff_u8: "(a :: u8) XOR b = 0 \<longleftrightarrow> a = b"
  by (metis bit.xor_self xor.assoc xor.left_neutral xor.right_neutral)

text \<open>
  C7. A report shorter than 8 bytes produces no events and leaves the previous report
  as it was. For a report of 8 bytes or more, diffed against the previous report, the
  events handed to the queue are, in this order: one event per bit \<open>i\<close> set in
  \<open>modifiers XOR prev_modifiers\<close>, with the ADB keycode of entry \<open>i\<close> of the table
  \<open>0x36, 0x38, 0x3A, 0x37, 0x7D, 0x7B, 0x7C, 0x37\<close> and \<open>released\<close> set iff bit \<open>i\<close>
  of \<open>modifiers\<close> is clear; one release event per entry of \<open>prev_keys\<close> that is
  non-zero, absent from bytes 2..7 of the report and mapped by the translation table;
  one press event per byte among bytes 2..7 that is non-zero, absent from \<open>prev_keys\<close>
  and mapped. Bytes 2..7 and the modifier byte become the previous report.
\<close>

theorem keyboard_report_events:
  "(length data < 8 \<longrightarrow>
      snd (on_keyboard_report usb_to_adb data s) = []
      \<and> prev_keys (fst (on_keyboard_report usb_to_adb data s)) = prev_keys s
      \<and> prev_modifiers (fst (on_keyboard_report usb_to_adb data s)) = prev_modifiers s)
   \<and> (8 \<le> length data \<and> length (prev_keys s) = 6 \<longrightarrow>
      snd (on_keyboard_report usb_to_adb data s)
      = map (\<lambda>i. \<lparr>adb_keycode = [0x36, 0x38, 0x3A, 0x37, 0x7D, 0x7B, 0x7C, 0x37] ! i,
                    released = (\<not> bit (data ! 0) i)\<rparr>)
          (filter (bit (data ! 0 XOR prev_modifiers s)) [0..<8])
        @ map (\<lambda>k. \<lparr>adb_keycode = usb_to_adb k, released = True\<rparr>)
            (filter (\<lambda>k. k \<noteq> 0 \<and> k \<notin> set (take 6 (drop 2 data)) \<and> usb_to_adb k \<noteq> 0xFF)
               (prev_keys s))
        @ map (\<lambda>k. \<lparr>adb_keycode = usb_to_adb k, released = False\<rparr>)
            (filter (\<lambda>k. k \<noteq> 0 \<and> k \<notin> set (prev_keys s) \<and> usb_to_adb k \<noteq> 0xFF)
               (take 6 (drop 2 data)))
      \<and> prev_keys (fst (on_keyboard_report usb_to_adb data s)) = take 6 (drop 2 data)
      \<and> prev_modifiers (fst (on_keyboard_report usb_to_adb data s)) = data ! 0)"
proof (intro conjI impI)
  assume "length data < 8"
  then show "snd (on_keyboard_report usb_to_adb data s) = []"
    and "prev_keys (fst (on_keyboard_report usb_to_adb data s)) = prev_keys s"
    and "prev_modifiers (fst (on_keyboard_report usb_to_adb data s)) = prev_modifiers s"
    by (simp_all add: on_keyboard_report_def Let_def)
next
  assume a: "8 \<le> length data \<and> length (prev_keys s) = 6"
  then have l: "\<not> length data < 8" by simp
  have m0: "filter (bit (0 :: u8)) [0..<8] = []"
    by (simp add: upt_0_8)
  show "snd (on_keyboard_report usb_to_adb data s)
      = map (\<lambda>i. \<lparr>adb_keycode = [0x36, 0x38, 0x3A, 0x37, 0x7D, 0x7B, 0x7C, 0x37] ! i,
                    released = (\<not> bit (data ! 0) i)\<rparr>)
          (filter (bit (data ! 0 XOR prev_modifiers s)) [0..<8])
        @ map (\<lambda>k. \<lparr>adb_keycode = usb_to_adb k, released = True\<rparr>)
            (filter (\<lambda>k. k \<noteq> 0 \<and> k \<notin> set (take 6 (drop 2 data)) \<and> usb_to_adb k \<noteq> 0xFF)
               (prev_keys s))
        @ map (\<lambda>k. \<lparr>adb_keycode = usb_to_adb k, released = False\<rparr>)
            (filter (\<lambda>k. k \<noteq> 0 \<and> k \<notin> set (prev_keys s) \<and> usb_to_adb k \<noteq> 0xFF)
               (take 6 (drop 2 data)))"
    using a l
    by (simp add: on_keyboard_report_def Let_def modifier_events_bits release_events_filter
        press_events_filter m0 del: upt_Suc)
  have sk: "map (\<lambda>i. if i + 2 < length data then data ! (i + 2) else 0) [0..<6]
            = take 6 (drop 2 data)"
    using a by (simp only: saved_keys)
  show "prev_keys (fst (on_keyboard_report usb_to_adb data s)) = take 6 (drop 2 data)"
    unfolding on_keyboard_report_def Let_def sk using l by simp
  show "prev_modifiers (fst (on_keyboard_report usb_to_adb data s)) = data ! 0"
    using a l by (simp add: on_keyboard_report_def Let_def xor_eq_0_iff_u8)
qed


text \<open>
  With only USB \<open>0x04\<close> mapped (to ADB \<open>0x00\<close>): the report "left shift and A down"
  after power-on gives shift down (\<open>0x38\<close>) then A down; the report "left shift down"
  after it gives A up; a three-byte report gives nothing.
\<close>

theorem keyboard_report_events_witness:
  "8 \<le> length report_shift_a \<and> length (prev_keys ble_keyboard_boot) = 6
   \<and> snd (on_keyboard_report only_a_mapped report_shift_a ble_keyboard_boot)
       = [\<lparr>adb_keycode = 0x38, released = False\<rparr>, \<lparr>adb_keycode = 0x00, released = False\<rparr>]
   \<and> prev_keys (fst (on_keyboard_report only_a_mapped report_shift_a ble_keyboard_boot))
       = [0x04, 0, 0, 0, 0, 0]
   \<and> prev_modifiers (fst (on_keyboard_report only_a_mapped report_shift_a ble_keyboard_boot))
       = 0x02
   \<and> 8 \<le> length report_shift
   \<and> snd (on_keyboard_report only_a_mapped report_shift
              (ble_keyboard_boot\<lparr>prev_keys := [0x04, 0, 0, 0, 0, 0], prev_modifiers := 0x02\<rparr>))
       = [\<lparr>adb_keycode = 0x00, released = True\<rparr>]
   \<and> length [0x02, 0, 0x04 :: u8] < 8
   \<and> snd (on_keyboard_report only_a_mapped [0x02, 0, 0x04] ble_keyboard_boot) = []"
  using keyboard_report_events [of report_shift_a only_a_mapped ble_keyboard_boot]
    keyboard_report_events [of report_shift only_a_mapped
      "ble_keyboard_boot\<lparr>prev_keys := [0x04, 0, 0, 0, 0, 0], prev_modifiers := 0x02\<rparr>"]
    keyboard_report_events [of "[0x02, 0, 0x04]" only_a_mapped ble_keyboard_boot]
  by (simp add: report_shift_a_def report_shift_def ble_keyboard_boot_def only_a_mapped_def
      ADB_KEY_NONE_def upt_0_8)

end
